theory Spec2Isabelle
  imports Main "HOL-Library.Sublist" "HOL-Library.Signed_Division" "HOL-Library.Word"
begin

section \<open>Exceptions and results\<close>

text \<open>
  The C++ sources raise exceptions (\<^verbatim>\<open>std::out_of_range\<close> from \<^verbatim>\<open>at\<close>,
  \<^verbatim>\<open>absl::bad_optional_access\<close> from \<^verbatim>\<open>value()\<close>, \<^verbatim>\<open>absl::bad_any_cast\<close>,
  \<^verbatim>\<open>EnvoyException\<close>, \<^verbatim>\<open>AppException\<close>). A function that can raise returns
  \<open>exn + 'a\<close>, with \<open>Inl\<close> the exception. \<open>Undefined\<close> stands for a failed
  \<^verbatim>\<open>ASSERT\<close>, a dereference of a null or dangling pointer, or the use of an
  invalidated iterator.

  Members of the C++ classes keep their names without the trailing underscore; a
  method of a nested class is prefixed with the name of its class where the name
  alone would clash.
\<close>

datatype AppExceptionType = ProtocolError

datatype exn =
    OutOfRange
  | BadOptionalAccess
  | BadAnyCast
  | EnvoyException string
  | AppException AppExceptionType string
  | Undefined

section \<open>metadata.h: MessageMetadata\<close>

datatype MsgType = Request | Response

text \<open>
  \<^verbatim>\<open>MethodType\<close> is declared in sip.h, which is not among the sources; the
  constructors are the request methods the specification lists. The code read here
  only tests for \<^verbatim>\<open>MethodType::Ack\<close>.
\<close>

datatype MethodType = Invite | Ack | Bye | Cancel | Register | Options | OtherMethod

text \<open>
  The optional string views of the class are \<open>string option\<close> fields holding the
  viewed characters. \<^verbatim>\<open>operation_list_\<close> (its element type is declared in
  operation.h, not among the sources) and the unused \<^verbatim>\<open>pep_\<close> are left out.
\<close>

record MessageMetadata =
  msg_type :: MsgType
  method_type :: MethodType
  resp_method_type :: MethodType
  ep :: "string option"
  route_ep :: "string option"
  route_opaque :: "string option"
  request_uri :: "string option"
  top_route :: "string option"
  domain :: "string option"
  transaction_id :: "string option"
  destination :: "string option"
  raw_msg :: string

definition setEP :: "string \<Rightarrow> MessageMetadata \<Rightarrow> MessageMetadata" where
  "setEP data m = m\<lparr>ep := Some data\<rparr>"

definition setDestination :: "string \<Rightarrow> MessageMetadata \<Rightarrow> MessageMetadata" where
  "setDestination d m = m\<lparr>destination := Some d\<rparr>"

subsection \<open>The string_view operations used by setTransactionId\<close>

text \<open>
  \<^verbatim>\<open>data.find(pat)\<close>: the least position at which \<open>pat\<close> starts, \<open>None\<close> for
  \<^verbatim>\<open>npos\<close>. The third argument is the position of the first character of the
  part still to be scanned.
\<close>

fun sv_find_from :: "string \<Rightarrow> string \<Rightarrow> nat \<Rightarrow> nat option" where
  "sv_find_from pat [] i = (if pat = [] then Some i else None)"
| "sv_find_from pat (c # cs) i =
     (if prefix pat (c # cs) then Some i else sv_find_from pat cs (Suc i))"

definition sv_find :: "string \<Rightarrow> string \<Rightarrow> nat option" where
  "sv_find data pat = sv_find_from pat data 0"

text \<open>
  \<^verbatim>\<open>data.find_first_of(chars, pos)\<close>: the least position from \<open>pos\<close> on that
  holds one of \<open>chars\<close>.
\<close>

fun sv_find_first_of_from :: "string \<Rightarrow> string \<Rightarrow> nat \<Rightarrow> nat option" where
  "sv_find_first_of_from chars [] i = None"
| "sv_find_first_of_from chars (c # cs) i =
     (if c \<in> set chars then Some i else sv_find_first_of_from chars cs (Suc i))"

definition sv_find_first_of :: "string \<Rightarrow> string \<Rightarrow> nat \<Rightarrow> nat option" where
  "sv_find_first_of data chars pos = sv_find_first_of_from chars (drop pos data) pos"

text \<open>
  \<^verbatim>\<open>data.substr(pos, n)\<close> raises \<^verbatim>\<open>std::out_of_range\<close> when \<open>pos\<close> is beyond
  the end, and otherwise clips \<open>n\<close> to what is left.
\<close>

definition sv_substr :: "string \<Rightarrow> nat \<Rightarrow> nat \<Rightarrow> exn + string" where
  "sv_substr data pos n =
     (if length data < pos then Inl OutOfRange else Inr (take n (drop pos data)))"

subsection \<open>setTransactionId\<close>

text \<open>
  The positions are \<^verbatim>\<open>size_t\<close> values; both differences taken below are of a
  larger minus a smaller position, so the natural numbers compute what the unsigned
  arithmetic does.
\<close>

definition setTransactionId :: "string \<Rightarrow> MessageMetadata \<Rightarrow> exn + MessageMetadata" where
  "setTransactionId data m =
     (case sv_find data ''branch='' of
        None \<Rightarrow> Inr m
      | Some found \<Rightarrow>
          let start_index = found + length ''branch='';
              end_index = (case sv_find_first_of data '';>'' start_index of
                             None \<Rightarrow> length data
                           | Some e \<Rightarrow> e)
          in (case sv_substr data start_index (end_index - start_index) of
                Inl e \<Rightarrow> Inl e
              | Inr s \<Rightarrow> Inr (m\<lparr>transaction_id := Some s\<rparr>)))"

text \<open>The default-constructed metadata: every optional view is unset.\<close>

definition MessageMetadata_default :: MessageMetadata where
  "MessageMetadata_default =
     \<lparr>msg_type = Request, method_type = OtherMethod, resp_method_type = OtherMethod,
      ep = None, route_ep = None, route_opaque = None, request_uri = None,
      top_route = None, domain = None, transaction_id = None, destination = None,
      raw_msg = []\<rparr>"

section \<open>Hash maps\<close>

text \<open>
  The maps of the sources (the \<^verbatim>\<open>absl::flat_hash_map\<close>s of router\_impl.h, and
  \<^verbatim>\<open>transactions_\<close> and \<^verbatim>\<open>PCookieIPMap\<close>, whose types conn\_manager.h
  declares) are lists of entries with distinct keys; the order of the list stands for
  the iteration order, which a hash map leaves unspecified. \<^verbatim>\<open>at\<close> raises
  \<^verbatim>\<open>std::out_of_range\<close> for a missing key, \<^verbatim>\<open>emplace\<close> inserts only when
  the key is not present yet, \<^verbatim>\<open>erase\<close> removes the entry of a key and leaves
  the other entries, and iterators to them, as they are.
\<close>

definition hm_at :: "('k \<times> 'v) list \<Rightarrow> 'k \<Rightarrow> exn + 'v" where
  "hm_at m k = (case map_of m k of None \<Rightarrow> Inl OutOfRange | Some v \<Rightarrow> Inr v)"

definition hm_emplace :: "'k \<Rightarrow> 'v \<Rightarrow> ('k \<times> 'v) list \<Rightarrow> ('k \<times> 'v) list" where
  "hm_emplace k v m = (if map_of m k = None then m @ [(k, v)] else m)"

definition hm_erase :: "'k \<Rightarrow> ('k \<times> 'v) list \<Rightarrow> ('k \<times> 'v) list" where
  "hm_erase k m = filter (\<lambda>e. fst e \<noteq> k) m"

section \<open>router\_impl.h\<close>

subsection \<open>Router::shouldSelectAnotherHost\<close>

text \<open>
  The first argument is \<^verbatim>\<open>metadata_->destination()\<close> as router\_impl.h reads it:
  a string that answers \<^verbatim>\<open>empty()\<close> and is compared with the address, empty
  when no affinity destination is set. The second is
  \<^verbatim>\<open>host.address()->ip()->addressAsString()\<close>.
\<close>

definition shouldSelectAnotherHost :: "string \<Rightarrow> string \<Rightarrow> bool" where
  "shouldSelectAnotherHost dest host_address =
     (if dest \<noteq> [] then False else host_address \<noteq> dest)"

subsection \<open>TransactionInfoItem and the per-worker maps\<close>

text \<open>
  \<open>'a\<close> is the type of the \<^verbatim>\<open>DecoderFilterCallbacks*\<close> an item holds. A shared
  pointer to an UpstreamRequest is \<open>nat option\<close>: \<open>None\<close> is \<^verbatim>\<open>nullptr\<close>,
  \<open>Some u\<close> points to the request \<open>u\<close>. \<open>start_time\<close> is what
  \<^verbatim>\<open>active_trans_->streamInfo().startTime()\<close> answers: a
  \<^verbatim>\<open>std::chrono::system_clock::time_point\<close>, whose representation is a signed
  64-bit count of ticks of the system clock (nanoseconds) since its epoch. It is a
  \<open>64 word\<close>, read as a signed number by \<open>sint\<close>.
\<close>

record 'a TransactionInfoItem =
  active_trans :: 'a
  upstream_request :: "nat option"
  start_time :: "64 word"
  deleted :: bool

definition timestamp :: "'a TransactionInfoItem \<Rightarrow> 64 word" where
  "timestamp item = start_time item"

definition toDelete :: "'a TransactionInfoItem \<Rightarrow> 'a TransactionInfoItem" where
  "toDelete item = item\<lparr>deleted := True\<rparr>"

text \<open>
  \<open>audit_timer\<close> is the pending expiry of the timer in milliseconds, \<open>None\<close> when
  it is not armed. \<open>transaction_timeout\<close> is a \<^verbatim>\<open>std::chrono::milliseconds\<close>:
  a signed 64-bit count of milliseconds.
\<close>

record 'a ThreadLocalTransactionInfo =
  transaction_info_map :: "(string \<times> 'a TransactionInfoItem) list"
  upstream_request_map :: "(string \<times> nat option) list"
  audit_timer :: "int option"
  transaction_timeout :: "64 word"
  own_domain :: string
  domain_match_parameter_name :: string

subsection \<open>TransactionInfo::getUpstreamRequest\<close>

text \<open>
  The function reads the worker's state and returns a pointer; the state is returned
  with the answer so that a change of it would show.
\<close>

definition getUpstreamRequest ::
  "string \<Rightarrow> 'a ThreadLocalTransactionInfo \<Rightarrow> (exn + nat option) \<times> 'a ThreadLocalTransactionInfo"
where
  "getUpstreamRequest host tls =
     (case hm_at (upstream_request_map tls) host of
        Inr ptr \<Rightarrow> (Inr ptr, tls)
      | Inl OutOfRange \<Rightarrow> (Inr None, tls)
      | Inl e \<Rightarrow> (Inl e, tls))"

subsection \<open>ThreadLocalTransactionInfo::auditTimerAction\<close>

text \<open>
  \<^verbatim>\<open>duration_cast<milliseconds>\<close> of a difference of system-clock time points:
  division of the signed 64-bit nanosecond count by 1000000, truncating towards zero.
  The quotient of a 64-bit count fits 64 bits.
\<close>

definition duration_cast_ms :: "64 word \<Rightarrow> 64 word" where
  "duration_cast_ms d = word_of_int (sint d sdiv 1000000)"

text \<open>
  \<^verbatim>\<open>resetTrans\<close> calls \<^verbatim>\<open>onReset\<close> on the callbacks the item points to. The
  callbacks are an interface: \<open>onReset\<close> is a parameter, a function of the pointer and
  of the state \<open>'w\<close> it acts on, which may raise. It does not reach the worker's
  table: \<^verbatim>\<open>ActiveTrans::onReset\<close>, its implementation in conn\_manager.cc, changes
  the ConnectionManager of the transaction only.
\<close>

definition resetTrans ::
  "('a \<Rightarrow> 'w \<Rightarrow> exn + 'w) \<Rightarrow> 'a TransactionInfoItem \<Rightarrow> 'w \<Rightarrow> exn + 'w" where
  "resetTrans onReset item w = onReset (active_trans item) w"

text \<open>
  The loop of \<^verbatim>\<open>auditTimerAction\<close> over the entries from the iterator on. It
  returns the entries that stay in the map, in their order, and the state the
  \<open>onReset\<close> calls leave. An exception of a callback leaves the loop.

  \<^verbatim>\<open>p1 - it->second->timestamp()\<close> subtracts two signed 64-bit tick counts. Where
  the difference of the two numbers does not fit 64 bits, C++ leaves the result open;
  the subtraction here is the one of the machine, which wraps around. The comparison
  \<^verbatim>\<open>diff.count() >= transaction_timeout_.count()\<close> is the signed one.
\<close>

fun audit_sweep ::
  "('a \<Rightarrow> 'w \<Rightarrow> exn + 'w) \<Rightarrow> 64 word \<Rightarrow> 64 word \<Rightarrow> (string \<times> 'a TransactionInfoItem) list \<Rightarrow> 'w
     \<Rightarrow> exn + (string \<times> 'a TransactionInfoItem) list \<times> 'w"
where
  "audit_sweep onReset p1 timeout [] w = Inr ([], w)"
| "audit_sweep onReset p1 timeout ((k, item) # rest) w =
     (if deleted item then audit_sweep onReset p1 timeout rest w
      else
        let diff = duration_cast_ms (p1 - timestamp item) in
        (case (if timeout \<le>s diff then resetTrans onReset item w else Inr w) of
           Inl e \<Rightarrow> Inl e
         | Inr w' \<Rightarrow>
             (case audit_sweep onReset p1 timeout rest w' of
                Inl e \<Rightarrow> Inl e
              | Inr (kept, w'') \<Rightarrow> Inr ((k, item) # kept, w''))))"

text \<open>\<open>p1\<close> is the system time the dispatcher's time source answers.\<close>

definition auditTimerAction ::
  "('a \<Rightarrow> 'w \<Rightarrow> exn + 'w) \<Rightarrow> 64 word \<Rightarrow> 'a ThreadLocalTransactionInfo \<Rightarrow> 'w
     \<Rightarrow> exn + 'a ThreadLocalTransactionInfo \<times> 'w"
where
  "auditTimerAction onReset p1 tls w =
     (case audit_sweep onReset p1 (transaction_timeout tls) (transaction_info_map tls) w of
        Inl e \<Rightarrow> Inl e
      | Inr (kept, w') \<Rightarrow>
          Inr (tls\<lparr>transaction_info_map := kept, audit_timer := Some 2000\<rparr>, w'))"

section \<open>conn\_manager.cc: the state\<close>

datatype ConnState = Open | Closing | Closed

datatype ConnectionCloseType = FlushWrite | NoFlush

datatype FilterStatus = Continue | StopIteration

datatype ResponseType = SuccessReply | ErrorReply | Exception

datatype ResponseStatus = MoreData | Complete | Reset

text \<open>The counters of \<^verbatim>\<open>stats_\<close> that conn\_manager.cc increments.\<close>

record ConnectionManagerStats =
  request :: nat
  response :: nat
  response_success :: nat
  response_error :: nat
  response_exception :: nat
  cx_destroy_local_with_active_rq :: nat
  cx_destroy_remote_with_active_rq :: nat

text \<open>The decoder of upstream responses that an ActiveTrans owns.\<close>

record ResponseDecoder =
  rd_metadata :: "MessageMetadata option"

text \<open>
  \<^verbatim>\<open>filter_action_\<close> is one of four closures, one per decoder stage; the field holds
  which one, \<open>None\<close> for \<^verbatim>\<open>nullptr\<close>.
\<close>

datatype FilterAction =
  TransportBeginAction | MessageBeginAction | MessageEndAction | TransportEndAction

text \<open>
  An ActiveTrans. \<open>at_transaction_id\<close> is what \<^verbatim>\<open>transactionId()\<close> answers;
  \<open>decoder_filters\<close> holds the filters of the chain, each a number that names the
  filter instance; the pointers \<^verbatim>\<open>metadata_\<close> and \<^verbatim>\<open>response_decoder_\<close>
  are options, \<open>None\<close> for null.
\<close>

record ActiveTrans =
  at_transaction_id :: string
  metadata :: "MessageMetadata option"
  decoder_filters :: "nat list"
  local_response_sent :: bool
  filter_action :: "FilterAction option"
  filter_context :: "MessageMetadata option"
  response_decoder :: "ResponseDecoder option"

text \<open>
  The ConnectionManager with what it acts on. ActiveTrans objects live in \<open>heap\<close>
  under their addresses; \<open>constructed\<close> counts the objects constructed so far and is
  the address of the next one, \<open>destroyed\<close> lists the addresses of the objects whose
  destructor ran. \<open>transactions\<close> is \<^verbatim>\<open>transactions_\<close>: it maps a transaction
  id to the address of the object the map owns.

  The downstream connection belongs to the host: \<open>conn_state\<close> is what its
  \<^verbatim>\<open>state()\<close> answers, \<open>conn_writes\<close> and \<open>conn_closes\<close> list the calls of
  \<^verbatim>\<open>write(buffer, end_stream)\<close> and \<^verbatim>\<open>close(type)\<close> made on it, and
  \<open>deferred_deletes\<close> the objects handed to the dispatcher's
  \<^verbatim>\<open>deferredDelete\<close>. \<open>local_ip\<close> is what \<^verbatim>\<open>getLocalIp()\<close> answers,
  \<open>filter_factory\<close> the filters the configured factory adds to a chain, and
  \<open>decoder_metadata\<close> the object behind \<^verbatim>\<open>decoder_->metadata()\<close>.
  \<open>local_reply_calls\<close> is a history variable: the number of calls of
  \<^verbatim>\<open>ConnectionManager::sendLocalReply\<close> made so far. No code reads it.

  A metadata object that several shared pointers of the C++ refer to (the decoder's,
  the transaction's, the filter context) is a value in each of the fields here; no
  property below depends on their being one object.
\<close>

record ConnectionManager =
  conn_state :: ConnState
  conn_writes :: "(string \<times> bool) list"
  conn_closes :: "ConnectionCloseType list"
  deferred_deletes :: "nat list"
  local_ip :: string
  stats :: ConnectionManagerStats
  transactions :: "(string \<times> nat) list"
  heap :: "nat \<Rightarrow> ActiveTrans option"
  constructed :: nat
  destroyed :: "nat list"
  filter_factory :: "nat list"
  p_cookie_ip_map :: "(string \<times> string) list"
  decoder_metadata :: "MessageMetadata option"
  local_reply_calls :: nat

text \<open>
  A \<^verbatim>\<open>DirectResponse\<close> is its \<^verbatim>\<open>encode\<close> method: from the metadata it is
  given (by reference) to the response type and the metadata as it leaves it. The
  buffer it fills is not read again by the code below.
\<close>

type_synonym DirectResponse = "MessageMetadata \<Rightarrow> ResponseType \<times> MessageMetadata"

text \<open>app\_exception\_impl.cc: \<^verbatim>\<open>AppException::encode\<close>.\<close>

definition AppException_encode :: "AppExceptionType \<Rightarrow> string \<Rightarrow> DirectResponse" where
  "AppException_encode ty what md = (Exception, md)"

section \<open>conn\_manager.cc: local replies and upstream responses\<close>

definition count_response :: "ResponseType \<Rightarrow> ConnectionManagerStats \<Rightarrow> ConnectionManagerStats"
where
  "count_response result st =
     (case result of
        SuccessReply \<Rightarrow> st\<lparr>response_success := Suc (response_success st)\<rparr>
      | ErrorReply \<Rightarrow> st\<lparr>response_error := Suc (response_error st)\<rparr>
      | Exception \<Rightarrow> st\<lparr>response_exception := Suc (response_exception st)\<rparr>)"

text \<open>
  \<^verbatim>\<open>ConnectionManager::sendLocalReply\<close>. \<open>enc\<close> is \<^verbatim>\<open>EncoderImpl::encode\<close>
  (encoder.cc is not among the sources): from the metadata to the bytes it appends to
  the buffer. The metadata is passed by reference, so it is returned as the call
  leaves it.
\<close>

definition sendLocalReply ::
  "(MessageMetadata \<Rightarrow> string) \<Rightarrow> MessageMetadata \<Rightarrow> DirectResponse \<Rightarrow> bool \<Rightarrow> ConnectionManager
     \<Rightarrow> MessageMetadata \<times> ConnectionManager"
where
  "sendLocalReply enc md resp end_stream cm =
     (let cm0 = cm\<lparr>local_reply_calls := Suc (local_reply_calls cm)\<rparr> in
      if conn_state cm0 = Closed then (md, cm0)
      else
        let (result, md1) = resp md;
            md2 = setEP (local_ip cm0) md1;
            response_buffer = enc md2;
            cm1 = cm0\<lparr>conn_writes := conn_writes cm0 @ [(response_buffer, end_stream)]\<rparr>;
            cm2 = (if end_stream then cm1\<lparr>conn_closes := conn_closes cm1 @ [FlushWrite]\<rparr>
                   else cm1)
        in (md2, cm2\<lparr>stats := count_response result (stats cm2)\<rparr>))"

text \<open>\<^verbatim>\<open>ConnectionManager::doDeferredTransDestroy\<close>, for the object at \<open>p\<close>.\<close>

definition doDeferredTransDestroy :: "nat \<Rightarrow> ConnectionManager \<Rightarrow> exn + ConnectionManager" where
  "doDeferredTransDestroy p cm =
     (case heap cm p of
        None \<Rightarrow> Inl Undefined
      | Some t \<Rightarrow>
          (case hm_at (transactions cm) (at_transaction_id t) of
             Inl e \<Rightarrow> Inl e
           | Inr q \<Rightarrow>
               Inr (cm\<lparr>deferred_deletes := deferred_deletes cm @ [q],
                       transactions := hm_erase (at_transaction_id t) (transactions cm)\<rparr>)))"

text \<open>\<^verbatim>\<open>ConnectionManager::ActiveTrans::onReset\<close>.\<close>

definition onReset :: "nat \<Rightarrow> ConnectionManager \<Rightarrow> exn + ConnectionManager" where
  "onReset p cm = doDeferredTransDestroy p cm"

text \<open>\<^verbatim>\<open>ConnectionManager::ActiveTrans::sendLocalReply\<close>, for the object at \<open>p\<close>.\<close>

definition ActiveTrans_sendLocalReply ::
  "(MessageMetadata \<Rightarrow> string) \<Rightarrow> DirectResponse \<Rightarrow> bool \<Rightarrow> nat \<Rightarrow> ConnectionManager
     \<Rightarrow> exn + ConnectionManager"
where
  "ActiveTrans_sendLocalReply enc resp end_stream p cm =
     (case heap cm p of
        None \<Rightarrow> Inl Undefined
      | Some t \<Rightarrow>
          (case metadata t of
             None \<Rightarrow> Inl Undefined
           | Some md \<Rightarrow>
               let (md', cm1) = sendLocalReply enc md resp end_stream cm;
                   t1 = t\<lparr>metadata := Some md'\<rparr>;
                   t2 = (if end_stream then t1 else t1\<lparr>local_response_sent := True\<rparr>)
               in Inr (cm1\<lparr>heap := (heap cm1)(p \<mapsto> t2)\<rparr>)))"

text \<open>\<^verbatim>\<open>ConnectionManager::ActiveTrans::onError\<close>.\<close>

definition onError ::
  "(MessageMetadata \<Rightarrow> string) \<Rightarrow> string \<Rightarrow> nat \<Rightarrow> ConnectionManager \<Rightarrow> exn + ConnectionManager"
where
  "onError enc what p cm =
     (case heap cm p of
        None \<Rightarrow> Inl Undefined
      | Some t \<Rightarrow>
          if metadata t \<noteq> None then
            ActiveTrans_sendLocalReply enc (AppException_encode ProtocolError what) True p cm
          else
            (case doDeferredTransDestroy p cm of
               Inl e \<Rightarrow> Inl e
             | Inr cm1 \<Rightarrow> Inr (cm1\<lparr>conn_closes := conn_closes cm1 @ [NoFlush]\<rparr>)))"

text \<open>\<^verbatim>\<open>ConnectionManager::ActiveTrans::startUpstreamResponse\<close>.\<close>

definition startUpstreamResponse :: "nat \<Rightarrow> ConnectionManager \<Rightarrow> exn + ConnectionManager" where
  "startUpstreamResponse p cm =
     (case heap cm p of
        None \<Rightarrow> Inl Undefined
      | Some t \<Rightarrow>
          Inr (cm\<lparr>heap := (heap cm)(p \<mapsto> t\<lparr>response_decoder := Some \<lparr>rd_metadata = None\<rparr>\<rparr>)\<rparr>))"

subsection \<open>ConnectionManager::ResponseDecoder\<close>

text \<open>
  The functions of the response decoder of the ActiveTrans at \<open>p\<close>. Those that
  raise an exception that \<^verbatim>\<open>upstreamData\<close> catches return the state at the throw
  beside the exception.
\<close>

definition ResponseDecoder_messageBegin :: "MessageMetadata \<Rightarrow> FilterStatus" where
  "ResponseDecoder_messageBegin md = Continue"

definition ResponseDecoder_messageEnd :: FilterStatus where
  "ResponseDecoder_messageEnd = Continue"

definition ResponseDecoder_transportEnd ::
  "(MessageMetadata \<Rightarrow> string) \<Rightarrow> nat \<Rightarrow> ConnectionManager
     \<Rightarrow> (exn + FilterStatus) \<times> ConnectionManager"
where
  "ResponseDecoder_transportEnd enc p cm =
     (case heap cm p of
        None \<Rightarrow> (Inl Undefined, cm)
      | Some t \<Rightarrow>
          (case response_decoder t of
             None \<Rightarrow> (Inl Undefined, cm)
           | Some rd \<Rightarrow>
               (case rd_metadata rd of
                  None \<Rightarrow> (Inl Undefined, cm)
                | Some md \<Rightarrow>
                    if conn_state cm = Closed then
                      (Inl (EnvoyException ''downstream connection is closed''), cm)
                    else
                      let md' = setEP (local_ip cm) md;
                          buffer = enc md';
                          t' = t\<lparr>response_decoder := Some (rd\<lparr>rd_metadata := Some md'\<rparr>)\<rparr>
                      in (Inr Continue,
                          cm\<lparr>heap := (heap cm)(p \<mapsto> t'),
                             conn_writes := conn_writes cm @ [(buffer, False)],
                             stats := (stats cm)\<lparr>response := Suc (response (stats cm))\<rparr>\<rparr>))))"

text \<open>
  \<^verbatim>\<open>ResponseDecoder::onData\<close>. The decoder's \<^verbatim>\<open>transportBegin\<close> is defined in
  conn\_manager.h, which is not among the sources: \<open>tb\<close> is the status it returns.
\<close>

definition ResponseDecoder_onData ::
  "(MessageMetadata \<Rightarrow> FilterStatus) \<Rightarrow> (MessageMetadata \<Rightarrow> string) \<Rightarrow> MessageMetadata \<Rightarrow> nat
     \<Rightarrow> ConnectionManager \<Rightarrow> (exn + bool) \<times> ConnectionManager"
where
  "ResponseDecoder_onData tb enc md p cm =
     (case heap cm p of
        None \<Rightarrow> (Inl Undefined, cm)
      | Some t \<Rightarrow>
          (case response_decoder t of
             None \<Rightarrow> (Inl Undefined, cm)
           | Some rd \<Rightarrow>
               let t' = t\<lparr>response_decoder := Some (rd\<lparr>rd_metadata := Some md\<rparr>)\<rparr>;
                   cm1 = cm\<lparr>heap := (heap cm)(p \<mapsto> t')\<rparr>
               in if tb md = StopIteration then (Inr True, cm1)
                  else if ResponseDecoder_messageBegin md = StopIteration then (Inr True, cm1)
                  else if ResponseDecoder_messageEnd = StopIteration then (Inr True, cm1)
                  else
                    (case ResponseDecoder_transportEnd enc p cm1 of
                       (Inl e, cm2) \<Rightarrow> (Inl e, cm2)
                     | (Inr status, cm2) \<Rightarrow> (Inr True, cm2))))"

text \<open>
  \<^verbatim>\<open>ConnectionManager::ActiveTrans::upstreamData\<close>. The two handlers catch
  \<^verbatim>\<open>AppException\<close> and \<^verbatim>\<open>EnvoyException\<close>; any other exception leaves the
  function, as does one raised inside a handler.
\<close>

definition upstreamData ::
  "(MessageMetadata \<Rightarrow> FilterStatus) \<Rightarrow> (MessageMetadata \<Rightarrow> string) \<Rightarrow> MessageMetadata \<Rightarrow> nat
     \<Rightarrow> ConnectionManager \<Rightarrow> (exn + ResponseStatus) \<times> ConnectionManager"
where
  "upstreamData tb enc md p cm =
     (case ResponseDecoder_onData tb enc md p cm of
        (Inr done, cm1) \<Rightarrow> (Inr (if done then Complete else MoreData), cm1)
      | (Inl (AppException ty what), cm1) \<Rightarrow>
          (case ActiveTrans_sendLocalReply enc (AppException_encode ty what) True p cm1 of
             Inl e \<Rightarrow> (Inl e, cm1)
           | Inr cm2 \<Rightarrow> (Inr Reset, cm2))
      | (Inl (EnvoyException what), cm1) \<Rightarrow>
          (case onError enc what p cm1 of
             Inl e \<Rightarrow> (Inl e, cm1)
           | Inr cm2 \<Rightarrow> (Inr Reset, cm2))
      | (Inl e, cm1) \<Rightarrow> (Inl e, cm1))"

section \<open>conn\_manager.cc: the transaction registry\<close>

text \<open>
  Modelled from the spec: the constructor of ActiveTrans is declared in
  conn\_manager.h, which is not among the sources. The specification has one
  ActiveTransaction per downstream connection and transaction id, with a
  \<^verbatim>\<open>local_response_sent\<close> flag and a ResponseDecoder attached only when upstream
  data arrives; the object is given the id of the metadata it is constructed from.
  \<^verbatim>\<open>metadata_\<close> is assigned by \<^verbatim>\<open>messageBegin\<close>, and \<^verbatim>\<open>onError\<close>
  tests it for null, so the constructor is taken to leave it null.
\<close>

definition ActiveTrans_ctor :: "string \<Rightarrow> ActiveTrans" where
  "ActiveTrans_ctor k =
     \<lparr>at_transaction_id = k, metadata = None, decoder_filters = [],
      local_response_sent = False, filter_action = None, filter_context = None,
      response_decoder = None\<rparr>"

text \<open>
  \<^verbatim>\<open>ActiveTrans::createFilterChain\<close>: the configured factory adds its filters to
  the chain of the object at \<open>p\<close>.
\<close>

definition createFilterChain :: "nat \<Rightarrow> ConnectionManager \<Rightarrow> ConnectionManager" where
  "createFilterChain p cm =
     (case heap cm p of
        None \<Rightarrow> cm
      | Some t \<Rightarrow>
          cm\<lparr>heap := (heap cm)(p \<mapsto> t\<lparr>decoder_filters := decoder_filters t @ filter_factory cm\<rparr>)\<rparr>)"

text \<open>
  \<^verbatim>\<open>ConnectionManager::newDecoderEventHandler\<close>. The answer is the address of the
  ActiveTrans the returned reference denotes. \<^verbatim>\<open>std::make_unique\<close> constructs
  a new object whenever the early return for ACK is not taken; when \<^verbatim>\<open>emplace\<close>
  finds the key present, the map is left as it is and the new object is destroyed with
  the \<^verbatim>\<open>unique_ptr\<close> that still owns it.
\<close>

definition newDecoderEventHandler ::
  "MessageMetadata \<Rightarrow> ConnectionManager \<Rightarrow> exn + nat \<times> ConnectionManager"
where
  "newDecoderEventHandler md cm =
     (case transaction_id md of
        None \<Rightarrow> Inl BadOptionalAccess
      | Some k \<Rightarrow>
          if method_type md = Ack \<and> map_of (transactions cm) k \<noteq> None then
            (case hm_at (transactions cm) k of
               Inl e \<Rightarrow> Inl e
             | Inr p \<Rightarrow> Inr (p, cm))
          else
            let new_trans = constructed cm;
                cm1 = cm\<lparr>constructed := Suc new_trans,
                         heap := (heap cm)(new_trans \<mapsto> ActiveTrans_ctor k)\<rparr>;
                cm2 = createFilterChain new_trans cm1;
                cm3 = (if map_of (transactions cm2) k = None
                       then cm2\<lparr>transactions := hm_emplace k new_trans (transactions cm2)\<rparr>
                       else cm2\<lparr>heap := (heap cm2)(new_trans := None),
                                destroyed := destroyed cm2 @ [new_trans]\<rparr>)
            in (case hm_at (transactions cm3) k of
                  Inl e \<Rightarrow> Inl e
                | Inr p \<Rightarrow> Inr (p, cm3)))"

text \<open>Decoding a list of messages in turn: the addresses answered, in order.\<close>

fun newDecoderEventHandlers ::
  "MessageMetadata list \<Rightarrow> ConnectionManager \<Rightarrow> exn + nat list \<times> ConnectionManager"
where
  "newDecoderEventHandlers [] cm = Inr ([], cm)"
| "newDecoderEventHandlers (md # mds) cm =
     (case newDecoderEventHandler md cm of
        Inl e \<Rightarrow> Inl e
      | Inr (p, cm1) \<Rightarrow>
          (case newDecoderEventHandlers mds cm1 of
             Inl e \<Rightarrow> Inl e
           | Inr (ps, cm2) \<Rightarrow> Inr (p # ps, cm2)))"

subsection \<open>ConnectionManager::resetAllTrans\<close>

definition count_reset :: "bool \<Rightarrow> ConnectionManager \<Rightarrow> ConnectionManager" where
  "count_reset local_reset cm =
     (if local_reset
      then cm\<lparr>stats := (stats cm)
             \<lparr>cx_destroy_local_with_active_rq := Suc (cx_destroy_local_with_active_rq (stats cm))\<rparr>\<rparr>
      else cm\<lparr>stats := (stats cm)
             \<lparr>cx_destroy_remote_with_active_rq := Suc (cx_destroy_remote_with_active_rq (stats cm))\<rparr>\<rparr>)"

text \<open>
  The loop of \<^verbatim>\<open>resetAllTrans\<close>. The second argument lists the entries from the
  iterator on. \<^verbatim>\<open>(it++)->second->onReset()\<close> moves the iterator on before the
  call, and the call erases from the map: an entry erased further on is not visited any
  more, and erasing the entry the iterator stands on is undefined.
\<close>

fun resetAllTrans_loop ::
  "bool \<Rightarrow> (string \<times> nat) list \<Rightarrow> ConnectionManager \<Rightarrow> exn + ConnectionManager"
where
  "resetAllTrans_loop local_reset [] cm = Inr cm"
| "resetAllTrans_loop local_reset ((k, p) # rest) cm =
     (case onReset p (count_reset local_reset cm) of
        Inl e \<Rightarrow> Inl e
      | Inr cm' \<Rightarrow>
          (case rest of
             [] \<Rightarrow> Inr cm'
           | nxt # _ \<Rightarrow>
               if nxt \<in> set (transactions cm') then
                 resetAllTrans_loop local_reset
                   (filter (\<lambda>e. e \<in> set (transactions cm')) rest) cm'
               else Inl Undefined))"

definition resetAllTrans :: "bool \<Rightarrow> ConnectionManager \<Rightarrow> exn + ConnectionManager" where
  "resetAllTrans local_reset cm = resetAllTrans_loop local_reset (transactions cm) cm"

section \<open>conn\_manager.cc: the filter chain\<close>

text \<open>
  The loop of \<^verbatim>\<open>applyDecoderFilters\<close> over the entries from \<open>entry\<close> on, for the
  ActiveTrans at \<open>p\<close>. \<open>act f\<close> is the call \<^verbatim>\<open>filter_action_\<close> makes on the
  filter \<open>f\<close>: it answers a status and may change the state (a filter reaches the
  ActiveTrans through its callbacks), or raises. The loop answers \<open>Some status\<close>
  where the function returns from inside the loop and \<open>None\<close> where the loop is left
  by \<^verbatim>\<open>break\<close> or at the end of the chain, then the state, and the filters it called,
  in the order of the calls.
\<close>

fun applyDecoderFilters_loop ::
  "(nat \<Rightarrow> ConnectionManager \<Rightarrow> exn + FilterStatus \<times> ConnectionManager) \<Rightarrow> nat \<Rightarrow> nat list
     \<Rightarrow> ConnectionManager \<Rightarrow> exn + FilterStatus option \<times> ConnectionManager \<times> nat list"
where
  "applyDecoderFilters_loop act p [] cm = Inr (None, cm, [])"
| "applyDecoderFilters_loop act p (entry # entries) cm =
     (case act entry cm of
        Inl e \<Rightarrow> Inl e
      | Inr (status, cm1) \<Rightarrow>
          (case heap cm1 p of
             None \<Rightarrow> Inl Undefined
           | Some t \<Rightarrow>
               if local_response_sent t then Inr (None, cm1, [entry])
               else if status \<noteq> Continue then Inr (Some status, cm1, [entry])
               else
                 (case applyDecoderFilters_loop act p entries cm1 of
                    Inl e \<Rightarrow> Inl e
                  | Inr (r, cm2, called) \<Rightarrow> Inr (r, cm2, entry # called))))"

text \<open>
  The end of \<^verbatim>\<open>applyDecoderFilters\<close>: \<^verbatim>\<open>filter_action_ = nullptr\<close> and
  \<^verbatim>\<open>filter_context_.reset()\<close>, on the ActiveTrans at \<open>p\<close>.
\<close>

definition clear_filter_action :: "nat \<Rightarrow> ConnectionManager \<Rightarrow> exn + ConnectionManager" where
  "clear_filter_action p cm =
     (case heap cm p of
        None \<Rightarrow> Inl Undefined
      | Some t \<Rightarrow>
          Inr (cm\<lparr>heap := (heap cm)(p \<mapsto> t\<lparr>filter_action := None, filter_context := None\<rparr>)\<rparr>))"

text \<open>
  Where the walk starts: at the head of the chain for \<^verbatim>\<open>nullptr\<close>, and at
  \<^verbatim>\<open>std::next(filter->entry())\<close> for the filter at position \<open>i\<close>, which has to
  be a position of the chain.
\<close>

definition first_entry :: "nat option \<Rightarrow> nat list \<Rightarrow> exn + nat list" where
  "first_entry after chain =
     (case after of
        None \<Rightarrow> Inr chain
      | Some i \<Rightarrow> if i < length chain then Inr (drop (Suc i) chain) else Inl Undefined)"

text \<open>
  \<^verbatim>\<open>ActiveTrans::applyDecoderFilters\<close>. \<open>run action f p\<close> is what the closure
  \<open>action\<close> of the ActiveTrans at \<open>p\<close> does on the filter \<open>f\<close>. The argument
  \<open>after\<close> is the parameter \<^verbatim>\<open>filter\<close>: \<open>None\<close> for \<^verbatim>\<open>nullptr\<close> and
  \<open>Some i\<close> for the filter whose \<^verbatim>\<open>entry()\<close> is the position \<open>i\<close> of the
  chain. The answer is the status, the state, and the filters called.
\<close>

definition applyDecoderFilters_traced ::
  "(FilterAction \<Rightarrow> nat \<Rightarrow> nat \<Rightarrow> ConnectionManager \<Rightarrow> exn + FilterStatus \<times> ConnectionManager)
     \<Rightarrow> nat option \<Rightarrow> nat \<Rightarrow> ConnectionManager
     \<Rightarrow> exn + FilterStatus \<times> ConnectionManager \<times> nat list"
where
  "applyDecoderFilters_traced run after p cm =
     (case heap cm p of
        None \<Rightarrow> Inl Undefined
      | Some t \<Rightarrow>
          (case filter_action t of
             None \<Rightarrow> Inl Undefined
           | Some action \<Rightarrow>
               (case
                  (if \<not> local_response_sent t then
                     (case first_entry after (decoder_filters t) of
                        Inl e \<Rightarrow> Inl e
                      | Inr entries \<Rightarrow>
                          applyDecoderFilters_loop (\<lambda>f. run action f p) p entries cm)
                   else Inr (None, cm, []))
                of
                  Inl e \<Rightarrow> Inl e
                | Inr (Some status, cm1, called) \<Rightarrow> Inr (status, cm1, called)
                | Inr (None, cm1, called) \<Rightarrow>
                    (case clear_filter_action p cm1 of
                       Inl e \<Rightarrow> Inl e
                     | Inr cm2 \<Rightarrow> Inr (Continue, cm2, called)))))"

definition applyDecoderFilters ::
  "(FilterAction \<Rightarrow> nat \<Rightarrow> nat \<Rightarrow> ConnectionManager \<Rightarrow> exn + FilterStatus \<times> ConnectionManager)
     \<Rightarrow> nat option \<Rightarrow> nat \<Rightarrow> ConnectionManager \<Rightarrow> exn + FilterStatus \<times> ConnectionManager"
where
  "applyDecoderFilters run after p cm =
     (case applyDecoderFilters_traced run after p cm of
        Inl e \<Rightarrow> Inl e
      | Inr (status, cm1, called) \<Rightarrow> Inr (status, cm1))"

text \<open>The stages of an ActiveTrans: each stores its closure and walks the chain from its head.\<close>

definition set_filter_action ::
  "FilterAction \<Rightarrow> MessageMetadata option \<Rightarrow> nat \<Rightarrow> ConnectionManager \<Rightarrow> ConnectionManager"
where
  "set_filter_action action ctx p cm =
     (case heap cm p of
        None \<Rightarrow> cm
      | Some t \<Rightarrow>
          cm\<lparr>heap := (heap cm)
                 (p \<mapsto> t\<lparr>filter_action := Some action,
                          filter_context := (case ctx of None \<Rightarrow> filter_context t | Some c \<Rightarrow> Some c)\<rparr>)\<rparr>)"

definition ActiveTrans_transportBegin ::
  "(FilterAction \<Rightarrow> nat \<Rightarrow> nat \<Rightarrow> ConnectionManager \<Rightarrow> exn + FilterStatus \<times> ConnectionManager)
     \<Rightarrow> MessageMetadata \<Rightarrow> nat \<Rightarrow> ConnectionManager \<Rightarrow> exn + FilterStatus \<times> ConnectionManager"
where
  "ActiveTrans_transportBegin run md p cm =
     applyDecoderFilters run None p (set_filter_action TransportBeginAction (Some md) p cm)"

definition ActiveTrans_messageBegin ::
  "(FilterAction \<Rightarrow> nat \<Rightarrow> nat \<Rightarrow> ConnectionManager \<Rightarrow> exn + FilterStatus \<times> ConnectionManager)
     \<Rightarrow> MessageMetadata \<Rightarrow> nat \<Rightarrow> ConnectionManager \<Rightarrow> exn + FilterStatus \<times> ConnectionManager"
where
  "ActiveTrans_messageBegin run md p cm =
     (case heap cm p of
        None \<Rightarrow> Inl Undefined
      | Some t \<Rightarrow>
          applyDecoderFilters run None p
            (set_filter_action MessageBeginAction (Some md) p
               (cm\<lparr>heap := (heap cm)(p \<mapsto> t\<lparr>metadata := Some md\<rparr>)\<rparr>)))"

definition ActiveTrans_messageEnd ::
  "(FilterAction \<Rightarrow> nat \<Rightarrow> nat \<Rightarrow> ConnectionManager \<Rightarrow> exn + FilterStatus \<times> ConnectionManager)
     \<Rightarrow> nat \<Rightarrow> ConnectionManager \<Rightarrow> exn + FilterStatus \<times> ConnectionManager"
where
  "ActiveTrans_messageEnd run p cm =
     applyDecoderFilters run None p (set_filter_action MessageEndAction None p cm)"

definition ActiveTrans_transportEnd ::
  "(FilterAction \<Rightarrow> nat \<Rightarrow> nat \<Rightarrow> ConnectionManager \<Rightarrow> exn + FilterStatus \<times> ConnectionManager)
     \<Rightarrow> nat \<Rightarrow> ConnectionManager \<Rightarrow> exn + FilterStatus \<times> ConnectionManager"
where
  "ActiveTrans_transportEnd run p cm =
     (case heap cm p of
        None \<Rightarrow> Inl Undefined
      | Some t \<Rightarrow>
          if metadata t = None then Inl Undefined
          else
            applyDecoderFilters run None p
              (set_filter_action TransportEndAction None p
                 (cm\<lparr>stats := (stats cm)\<lparr>request := Suc (request (stats cm))\<rparr>\<rparr>)))"

section \<open>conn\_manager.cc: answers of the traffic routing assistant\<close>

text \<open>
  The response types of tra\_impl.h (not among the sources) that \<^verbatim>\<open>complete\<close>
  names, and one for any other, which takes the \<^verbatim>\<open>default\<close> branch. The
  \<^verbatim>\<open>absl::any\<close> holds one of the two response messages, each a map from key to
  host given as the list of its entries in iteration order, or something else.
\<close>

datatype TraResponseType =
    CreateLskpmcResp
  | UpdateLskpmcResp
  | RetrieveLskpmcResp
  | DeleteLskpmcResp
  | SubscribeLskpmcResp
  | OtherResp

datatype TraResponse =
    RetrieveLskpmcResponse "(string \<times> string) list"
  | SubscribeLskpmcResponse "(string \<times> string) list"
  | OtherResponse

text \<open>The loop of the \<^verbatim>\<open>RetrieveLskpmcResp\<close> case.\<close>

fun retrieve_loop :: "(string \<times> string) list \<Rightarrow> ConnectionManager \<Rightarrow> exn + ConnectionManager"
where
  "retrieve_loop [] cm = Inr cm"
| "retrieve_loop ((key, host) # items) cm =
     (if host \<noteq> [] then
        (case decoder_metadata cm of
           None \<Rightarrow> Inl Undefined
         | Some md \<Rightarrow>
             retrieve_loop items
               (cm\<lparr>decoder_metadata := Some (setDestination host md),
                   p_cookie_ip_map := hm_emplace key host (p_cookie_ip_map cm)\<rparr>))
      else retrieve_loop items cm)"

text \<open>The loop of the \<^verbatim>\<open>SubscribeLskpmcResp\<close> case.\<close>

fun subscribe_loop :: "(string \<times> string) list \<Rightarrow> ConnectionManager \<Rightarrow> ConnectionManager" where
  "subscribe_loop [] cm = cm"
| "subscribe_loop ((key, host) # items) cm =
     subscribe_loop items (cm\<lparr>p_cookie_ip_map := hm_emplace key host (p_cookie_ip_map cm)\<rparr>)"

text \<open>
  \<^verbatim>\<open>continueHanding\<close> and \<^verbatim>\<open>dispatch\<close> call the decoder on the request buffer.
  The decoder is not among the sources: \<open>dec\<close> is its \<^verbatim>\<open>onData\<close>, from the
  \<^verbatim>\<open>continue_handling\<close> flag and the state to the state it leaves, or an exception.
\<close>

definition continueHanding ::
  "(bool \<Rightarrow> ConnectionManager \<Rightarrow> exn + ConnectionManager) \<Rightarrow> ConnectionManager
     \<Rightarrow> exn + ConnectionManager"
where
  "continueHanding dec cm = dec True cm"

definition dispatch ::
  "(bool \<Rightarrow> ConnectionManager \<Rightarrow> exn + ConnectionManager) \<Rightarrow> ConnectionManager
     \<Rightarrow> exn + ConnectionManager"
where
  "dispatch dec cm = dec False cm"

text \<open>\<^verbatim>\<open>ConnectionManager::complete\<close>.\<close>

definition complete ::
  "(bool \<Rightarrow> ConnectionManager \<Rightarrow> exn + ConnectionManager) \<Rightarrow> TraResponseType \<Rightarrow> TraResponse
     \<Rightarrow> ConnectionManager \<Rightarrow> exn + ConnectionManager"
where
  "complete dec ty resp cm =
     (case ty of
        CreateLskpmcResp \<Rightarrow> Inr cm
      | UpdateLskpmcResp \<Rightarrow> Inr cm
      | RetrieveLskpmcResp \<Rightarrow>
          (case resp of
             RetrieveLskpmcResponse lskpmcs \<Rightarrow>
               (case retrieve_loop lskpmcs cm of
                  Inl e \<Rightarrow> Inl e
                | Inr cm1 \<Rightarrow> continueHanding dec cm1)
           | _ \<Rightarrow> Inl BadAnyCast)
      | DeleteLskpmcResp \<Rightarrow> Inr cm
      | SubscribeLskpmcResp \<Rightarrow>
          (case resp of
             SubscribeLskpmcResponse lskpmcs \<Rightarrow> Inr (subscribe_loop lskpmcs cm)
           | _ \<Rightarrow> Inl BadAnyCast)
      | OtherResp \<Rightarrow> Inr cm)"

section \<open>Initial state, invariant and example inputs\<close>

text \<open>
  The state the constructor of the ConnectionManager leaves: nothing written, no
  transaction, an empty \<^verbatim>\<open>PCookieIPMap\<close>.
\<close>

definition ConnectionManager_init :: "string \<Rightarrow> nat list \<Rightarrow> ConnectionManager" where
  "ConnectionManager_init ip factory =
     \<lparr>conn_state = Open, conn_writes = [], conn_closes = [], deferred_deletes = [],
      local_ip = ip,
      stats = \<lparr>request = 0, response = 0, response_success = 0, response_error = 0,
                response_exception = 0, cx_destroy_local_with_active_rq = 0,
                cx_destroy_remote_with_active_rq = 0\<rparr>,
      transactions = [], heap = (\<lambda>p. None), constructed = 0, destroyed = [],
      filter_factory = factory, p_cookie_ip_map = [], decoder_metadata = None,
      local_reply_calls = 0\<rparr>"

text \<open>
  The invariant of the registry: the keys of \<^verbatim>\<open>transactions_\<close> are distinct (it
  is a map), and every entry points to a live ActiveTrans, constructed earlier, whose
  \<^verbatim>\<open>transactionId()\<close> is the key it is indexed under.
\<close>

definition registry_inv :: "ConnectionManager \<Rightarrow> bool" where
  "registry_inv cm \<longleftrightarrow>
     distinct (map fst (transactions cm)) \<and>
     list_all (\<lambda>(k, p). p < constructed cm \<and>
                 (case heap cm p of None \<Rightarrow> False | Some t \<Rightarrow> at_transaction_id t = k))
       (transactions cm)"

text \<open>\<open>n\<close> more resets counted on the counter that \<open>local_reset\<close> selects.\<close>

definition add_resets :: "bool \<Rightarrow> nat \<Rightarrow> ConnectionManagerStats \<Rightarrow> ConnectionManagerStats" where
  "add_resets local_reset n st =
     (if local_reset
      then st\<lparr>cx_destroy_local_with_active_rq := cx_destroy_local_with_active_rq st + n\<rparr>
      else st\<lparr>cx_destroy_remote_with_active_rq := cx_destroy_remote_with_active_rq st + n\<rparr>)"

text \<open>
  Example messages, the state after the first INVITE was decoded in the initial state
  of a ConnectionManager whose factory adds the filter 7, and an example state with
  two transactions.
\<close>

definition invite_1 :: MessageMetadata where
  "invite_1 = MessageMetadata_default\<lparr>method_type := Invite, transaction_id := Some ''z9hG4bK-1''\<rparr>"

definition invite_2 :: MessageMetadata where
  "invite_2 = MessageMetadata_default\<lparr>method_type := Invite, transaction_id := Some ''z9hG4bK-2''\<rparr>"

definition ack_1 :: MessageMetadata where
  "ack_1 = MessageMetadata_default\<lparr>method_type := Ack, transaction_id := Some ''z9hG4bK-1''\<rparr>"

definition cm_one :: ConnectionManager where
  "cm_one = (ConnectionManager_init ''127.0.0.1'' [7])
     \<lparr>transactions := [(''z9hG4bK-1'', 0)],
      heap := [0 \<mapsto> (ActiveTrans_ctor ''z9hG4bK-1'')\<lparr>decoder_filters := [7]\<rparr>],
      constructed := 1\<rparr>"

definition cm_two :: ConnectionManager where
  "cm_two = (ConnectionManager_init ''127.0.0.1'' [7])
     \<lparr>transactions := [(''z9hG4bK-1'', 0), (''z9hG4bK-2'', 1)],
      heap := [0 \<mapsto> ActiveTrans_ctor ''z9hG4bK-1'', 1 \<mapsto> ActiveTrans_ctor ''z9hG4bK-2''],
      constructed := 2\<rparr>"

text \<open>
  For the audit sweep: an item has expired when the age the code computes, in whole
  milliseconds, has reached the timeout; \<open>ticks_fit p1 item\<close> says that the
  difference of the two tick counts is a signed 64-bit number, which is so for two
  readings of one clock less than 292 years apart; \<open>resets_in_order\<close> is a sequence
  of \<^verbatim>\<open>onReset\<close> calls, left at the first one that raises.
\<close>

definition expired :: "64 word \<Rightarrow> 64 word \<Rightarrow> 'a TransactionInfoItem \<Rightarrow> bool" where
  "expired p1 timeout item \<longleftrightarrow> timeout \<le>s duration_cast_ms (p1 - timestamp item)"

definition ticks_fit :: "64 word \<Rightarrow> 'a TransactionInfoItem \<Rightarrow> bool" where
  "ticks_fit p1 item \<longleftrightarrow>
     - (2 ^ 63) \<le> sint p1 - sint (start_time item) \<and> sint p1 - sint (start_time item) < 2 ^ 63"

fun resets_in_order :: "('a \<Rightarrow> 'w \<Rightarrow> exn + 'w) \<Rightarrow> 'a list \<Rightarrow> 'w \<Rightarrow> exn + 'w" where
  "resets_in_order cb [] w = Inr w"
| "resets_in_order cb (a # as) w =
     (case cb a w of Inl e \<Rightarrow> Inl e | Inr w' \<Rightarrow> resets_in_order cb as w')"

text \<open>
  An example table of a worker: a live entry that started at time 0, a deleted entry,
  and a live entry that started 0.4 s later, with a timeout of 500 ms.
\<close>

definition tls_three :: "nat ThreadLocalTransactionInfo" where
  "tls_three =
     \<lparr>transaction_info_map =
        [(''z9hG4bK-1'', \<lparr>active_trans = 0, upstream_request = None, start_time = 0, deleted = False\<rparr>),
         (''z9hG4bK-2'', \<lparr>active_trans = 1, upstream_request = None, start_time = 0, deleted = True\<rparr>),
         (''z9hG4bK-3'', \<lparr>active_trans = 2, upstream_request = None, start_time = 400000000,
                          deleted = False\<rparr>)],
      upstream_request_map = [], audit_timer = None, transaction_timeout = 500,
      own_domain = [], domain_match_parameter_name = []\<rparr>"







text \<open>The bytes hold \<^verbatim>\<open>ep=\<close> followed by the address.\<close>

definition carries_ep :: "string \<Rightarrow> string \<Rightarrow> bool" where
  "carries_ep ip bytes \<longleftrightarrow> sv_find bytes (''ep='' @ ip) \<noteq> None"

text \<open>
  Modelled from the spec: \<^verbatim>\<open>EncoderImpl::encode\<close> is defined in encoder.cc, which
  is not among the sources. The specification says of the encoder that its only
  mandatory rewrite is the injection or replacement of the EP parameter on outbound
  messages, and that the encoded bytes of every outbound message contain
  \<^verbatim>\<open>ep=<local_ip>\<close>: an encoder given metadata whose EP is set writes bytes that
  carry it.
\<close>

definition encoder_injects_ep :: "(MessageMetadata \<Rightarrow> string) \<Rightarrow> bool" where
  "encoder_injects_ep enc \<longleftrightarrow> (\<forall>m ip. ep m = Some ip \<longrightarrow> carries_ep ip (enc m))"

text \<open>
  Example inputs: an encoder that appends the EP parameter to the raw message, a
  200 OK of the first transaction, a ConnectionManager whose transaction has decoded
  its request and been given a response decoder, the same with a transaction that
  holds no request metadata, and a ConnectionManager that waits for an answer of the
  routing assistant while its \<^verbatim>\<open>PCookieIPMap\<close> holds an entry for \<^verbatim>\<open>abc\<close>.
\<close>

text \<open>
  A \<^verbatim>\<open>transportBegin\<close> of the response decoder that lets every response through,
  and a decoder that leaves the state as it is.
\<close>

definition tb_continue :: "MessageMetadata \<Rightarrow> FilterStatus" where
  "tb_continue md = Continue"

definition dec_idle :: "bool \<Rightarrow> ConnectionManager \<Rightarrow> exn + ConnectionManager" where
  "dec_idle continue_handling cm = Inr cm"

definition enc_append_ep :: "MessageMetadata \<Rightarrow> string" where
  "enc_append_ep m = raw_msg m @ (case ep m of None \<Rightarrow> [] | Some ip \<Rightarrow> '';ep='' @ ip)"

definition ok_200 :: MessageMetadata where
  "ok_200 = MessageMetadata_default
     \<lparr>msg_type := Response, transaction_id := Some ''z9hG4bK-1'', raw_msg := ''SIP/2.0 200 OK''\<rparr>"

definition cm_upstream :: ConnectionManager where
  "cm_upstream = (ConnectionManager_init ''127.0.0.1'' [])
     \<lparr>transactions := [(''z9hG4bK-1'', 0)],
      heap := [0 \<mapsto> (ActiveTrans_ctor ''z9hG4bK-1'')
                 \<lparr>metadata := Some invite_1,
                  response_decoder := Some \<lparr>rd_metadata = None\<rparr>\<rparr>],
      constructed := 1\<rparr>"


definition cm_retrieve :: ConnectionManager where
  "cm_retrieve = (ConnectionManager_init ''127.0.0.1'' [])
     \<lparr>p_cookie_ip_map := [(''abc'', ''10.0.0.1'')], decoder_metadata := Some invite_1\<rparr>"

section \<open>Properties of setTransactionId\<close>

lemma sv_find_from_None:
  "sv_find_from pat xs i = None \<longleftrightarrow> (\<nexists>pre post. xs = pre @ pat @ post)"
proof (induction xs arbitrary: i)
  case Nil
  then show ?case by auto
next
  case (Cons c cs)
  show ?case
  proof (cases "prefix pat (c # cs)")
    case True
    then obtain post where "c # cs = pat @ post" by (auto simp: prefix_def)
    then have "c # cs = [] @ pat @ post" by simp
    with True show ?thesis by (metis sv_find_from.simps(2) option.distinct(1))
  next
    case False
    have "(\<exists>pre post. c # cs = pre @ pat @ post) \<longleftrightarrow> (\<exists>pre post. cs = pre @ pat @ post)"
    proof
      assume "\<exists>pre post. c # cs = pre @ pat @ post"
      then obtain pre post where e: "c # cs = pre @ pat @ post" by blast
      show "\<exists>pre post. cs = pre @ pat @ post"
      proof (cases pre)
        case Nil
        with e have "prefix pat (c # cs)" by (simp add: prefix_def)
        with False show ?thesis by simp
      next
        case (Cons p ps)
        with e have "cs = ps @ pat @ post" by simp
        then show ?thesis by blast
      qed
    next
      assume "\<exists>pre post. cs = pre @ pat @ post"
      then obtain pre post where "cs = pre @ pat @ post" by blast
      then have "c # cs = (c # pre) @ pat @ post" by simp
      then show "\<exists>pre post. c # cs = pre @ pat @ post" by blast
    qed
    with False Cons.IH [of "Suc i"] show ?thesis by simp
  qed
qed

lemma sv_find_from_Some:
  assumes "xs = pre @ pat @ post"
    and "\<And>pre' post'. xs = pre' @ pat @ post' \<Longrightarrow> length pre \<le> length pre'"
  shows "sv_find_from pat xs i = Some (i + length pre)"
  using assms
proof (induction xs arbitrary: i pre)
  case Nil
  then show ?case by simp
next
  case (Cons c cs)
  show ?case
  proof (cases "prefix pat (c # cs)")
    case True
    then obtain post' where "c # cs = [] @ pat @ post'" by (auto simp: prefix_def)
    from Cons.prems(2) [OF this] have "pre = []" by simp
    with True show ?thesis by simp
  next
    case False
    have "pre \<noteq> []"
    proof
      assume "pre = []"
      with Cons.prems(1) have "prefix pat (c # cs)" by (simp add: prefix_def)
      with False show False by simp
    qed
    then obtain p ps where pre: "pre = p # ps" by (cases pre) auto
    with Cons.prems(1) have cs: "cs = ps @ pat @ post" by simp
    have least: "length ps \<le> length pre'" if "cs = pre' @ pat @ post'" for pre' post'
    proof -
      from that have "c # cs = (c # pre') @ pat @ post'" by simp
      from Cons.prems(2) [OF this] pre show ?thesis by simp
    qed
    have "sv_find_from pat cs (Suc i) = Some (Suc i + length ps)"
      by (rule Cons.IH [OF cs least])
    with False pre show ?thesis by simp
  qed
qed

lemma sv_find_first_of_from_eq:
  "sv_find_first_of_from chars xs i =
     (if set xs \<inter> set chars = {} then None
      else Some (i + length (takeWhile (\<lambda>c. c \<notin> set chars) xs)))"
  by (induction xs arbitrary: i) auto

lemma sv_find_first_of_from_None_length:
  "(case sv_find_first_of_from chars xs i of None \<Rightarrow> i + length xs | Some e \<Rightarrow> e) =
     i + length (takeWhile (\<lambda>c. c \<notin> set chars) xs)"
proof (induction xs arbitrary: i)
  case Nil
  show ?case by simp
next
  case (Cons c cs)
  from Cons.IH [of "Suc i"] show ?case by (auto split: option.splits)
qed

lemma take_takeWhile_length: "take (length (takeWhile P xs)) xs = takeWhile P xs"
  by (induction xs) auto

lemma takeWhile_all: "set xs \<inter> {c. \<not> P c} = {} \<Longrightarrow> takeWhile P xs = xs"
  by (induction xs) auto

lemma setTransactionId_found:
  assumes "sv_find data ''branch='' = Some (length pre)"
    and "data = pre @ ''branch='' @ post"
  shows "setTransactionId data m =
    Inr (m\<lparr>transaction_id := Some (takeWhile (\<lambda>c. c \<notin> set '';>'') post)\<rparr>)"
proof -
  define start where "start = length pre + length ''branch=''"
  have d: "drop start data = post"
    using assms(2) by (simp add: start_def)
  have l: "length data = start + length post"
    using assms(2) by (simp add: start_def)
  have e: "(case sv_find_first_of data '';>'' start of None \<Rightarrow> length data | Some e \<Rightarrow> e) =
      start + length (takeWhile (\<lambda>c. c \<notin> set '';>'') post)"
    unfolding sv_find_first_of_def d l
    by (rule sv_find_first_of_from_None_length)
  have s: "sv_substr data start (length (takeWhile (\<lambda>c. c \<notin> set '';>'') post)) =
      Inr (takeWhile (\<lambda>c. c \<notin> set '';>'') post)"
    unfolding sv_substr_def d using l by (simp only: take_takeWhile_length) simp
  have "setTransactionId data m =
      (case sv_substr data start
              ((case sv_find_first_of data '';>'' start of None \<Rightarrow> length data | Some e \<Rightarrow> e)
                - start) of
         Inl e \<Rightarrow> Inl e
       | Inr s \<Rightarrow> Inr (m\<lparr>transaction_id := Some s\<rparr>))"
    unfolding setTransactionId_def assms(1) start_def by (simp only: Let_def option.case)
  also have "\<dots> = Inr (m\<lparr>transaction_id := Some (takeWhile (\<lambda>c. c \<notin> set '';>'') post)\<rparr>)"
    unfolding e by (simp only: add_diff_cancel_left' s sum.case)
  finally show ?thesis .
qed

text \<open>
  C8. For every header string: when the header holds no \<^verbatim>\<open>branch=\<close>, the metadata
  (and so the stored transaction id) is left as it was; when it does, the transaction
  id becomes the text that follows the first \<^verbatim>\<open>branch=\<close>, up to the first
  \<^verbatim>\<open>;\<close> or \<^verbatim>\<open>>\<close> after it, or up to the end of the header when neither
  follows. No exception is raised in either case.
\<close>

theorem setTransactionId_branch_token:
  "((\<nexists>pre post. data = pre @ ''branch='' @ post) \<longrightarrow> setTransactionId data m = Inr m) \<and>
   (data = pre @ ''branch='' @ post \<and>
    (\<forall>pre' post'. data = pre' @ ''branch='' @ post' \<longrightarrow> length pre \<le> length pre') \<longrightarrow>
      setTransactionId data m =
        Inr (m\<lparr>transaction_id :=
               Some (takeWhile (\<lambda>c. c \<noteq> CHR '';'' \<and> c \<noteq> CHR ''>'') post)\<rparr>))"
proof (intro conjI impI)
  assume "\<nexists>pre post. data = pre @ ''branch='' @ post"
  then have "sv_find data ''branch='' = None"
    unfolding sv_find_def using sv_find_from_None [of "''branch=''" data 0] by blast
  then show "setTransactionId data m = Inr m"
    by (simp add: setTransactionId_def)
next
  assume a: "data = pre @ ''branch='' @ post \<and>
    (\<forall>pre' post'. data = pre' @ ''branch='' @ post' \<longrightarrow> length pre \<le> length pre')"
  then have "sv_find_from ''branch='' data 0 = Some (0 + length pre)"
    by (intro sv_find_from_Some [where post = post]) blast+
  then have f: "sv_find data ''branch='' = Some (length pre)"
    by (simp add: sv_find_def)
  have "(\<lambda>c. c \<notin> set '';>'') = (\<lambda>c. c \<noteq> CHR '';'' \<and> c \<noteq> CHR ''>'')"
    by auto
  with setTransactionId_found [OF f, of post m] a
  show "setTransactionId data m =
        Inr (m\<lparr>transaction_id :=
               Some (takeWhile (\<lambda>c. c \<noteq> CHR '';'' \<and> c \<noteq> CHR ''>'') post)\<rparr>)"
    by simp
qed

lemma sv_find_from_least:
  "sv_find_from pat xs i = Some j \<Longrightarrow> xs = pre' @ pat @ post' \<Longrightarrow> j \<le> i + length pre'"
proof (induction xs arbitrary: i pre')
  case Nil
  then show ?case by (simp split: if_splits)
next
  case (Cons c cs)
  show ?case
  proof (cases "prefix pat (c # cs)")
    case True
    with Cons.prems(1) show ?thesis by simp
  next
    case False
    have "pre' \<noteq> []"
    proof
      assume "pre' = []"
      with Cons.prems(2) have "prefix pat (c # cs)" by (simp add: prefix_def)
      with False show False by simp
    qed
    then obtain q qs where pre': "pre' = q # qs" by (cases pre') auto
    with Cons.prems(2) have cs: "cs = qs @ pat @ post'" by simp
    from False Cons.prems(1) have "sv_find_from pat cs (Suc i) = Some j" by simp
    from Cons.IH [OF this cs] pre' show ?thesis by simp
  qed
qed

text \<open>
  The theorem of C8 at two headers: one whose first \<^verbatim>\<open>branch=\<close> is followed by a
  \<^verbatim>\<open>;\<close>, and one without \<^verbatim>\<open>branch=\<close>.
\<close>

theorem setTransactionId_branch_token_witness:
  "setTransactionId ''d;branch=z9hG4bK-1;rport'' MessageMetadata_default =
     Inr (MessageMetadata_default\<lparr>transaction_id := Some ''z9hG4bK-1''\<rparr>) \<and>
   setTransactionId ''Via: d'' MessageMetadata_default = Inr MessageMetadata_default"
proof -
  have none: "sv_find_from ''branch='' ''Via: d'' 0 = None" by simp
  have h1: "\<nexists>pre post. ''Via: d'' = pre @ ''branch='' @ post"
    using none sv_find_from_None [of "''branch=''" "''Via: d''" 0] by blast
  have some: "sv_find_from ''branch='' ''d;branch=z9hG4bK-1;rport'' 0 = Some 2" by simp
  have h2: "''d;branch=z9hG4bK-1;rport'' = ''d;'' @ ''branch='' @ ''z9hG4bK-1;rport''" by simp
  have h3: "\<forall>pre' post'. ''d;branch=z9hG4bK-1;rport'' = pre' @ ''branch='' @ post'
      \<longrightarrow> length ''d;'' \<le> length pre'"
  proof (intro allI impI)
    fix pre' post'
    assume e: "''d;branch=z9hG4bK-1;rport'' = pre' @ ''branch='' @ post'"
    from sv_find_from_least [OF some e] show "length ''d;'' \<le> length pre'" by simp
  qed
  from setTransactionId_branch_token [of "''Via: d''" MessageMetadata_default] h1
  have a: "setTransactionId ''Via: d'' MessageMetadata_default = Inr MessageMetadata_default"
    by blast
  from setTransactionId_branch_token
    [of "''d;branch=z9hG4bK-1;rport''" MessageMetadata_default "''d;''" "''z9hG4bK-1;rport''"] h2 h3
  have "setTransactionId ''d;branch=z9hG4bK-1;rport'' MessageMetadata_default =
      Inr (MessageMetadata_default\<lparr>transaction_id :=
        Some (takeWhile (\<lambda>c. c \<noteq> CHR '';'' \<and> c \<noteq> CHR ''>'') ''z9hG4bK-1;rport'')\<rparr>)"
    by blast
  then have b: "setTransactionId ''d;branch=z9hG4bK-1;rport'' MessageMetadata_default =
     Inr (MessageMetadata_default\<lparr>transaction_id := Some ''z9hG4bK-1''\<rparr>)" by simp
  from a b show ?thesis by simp
qed

section \<open>Properties of the per-worker transaction tables\<close>

text \<open>
  C10. For every host address, \<^verbatim>\<open>getUpstreamRequest\<close> answers normally: the null
  pointer when the worker's \<^verbatim>\<open>upstream_request_map_\<close> has no entry for the host
  (the \<^verbatim>\<open>std::out_of_range\<close> of the lookup is caught and does not reach the
  caller), and the stored shared pointer otherwise. The worker's state, the map
  with it, is the same after the call.
\<close>

theorem getUpstreamRequest_lookup:
  "getUpstreamRequest host tls =
     (Inr (case map_of (upstream_request_map tls) host of None \<Rightarrow> None | Some ptr \<Rightarrow> ptr), tls)"
  by (simp add: getUpstreamRequest_def hm_at_def split: option.splits)

section \<open>Properties of the router's host selection\<close>

text \<open>
  What the code of \<^verbatim>\<open>shouldSelectAnotherHost\<close> computes: it asks for another host
  exactly when no destination is set and the offered host has an address.
\<close>

lemma shouldSelectAnotherHost_eq:
  "shouldSelectAnotherHost dest h = (dest = [] \<and> h \<noteq> [])"
  by (auto simp: shouldSelectAnotherHost_def)

text \<open>
  C1 says that, while the destination is set, \<^verbatim>\<open>shouldSelectAnotherHost\<close> answers
  true exactly for the hosts whose address differs from the destination. The code
  does not: with the destination 10.0.0.7 it answers false for the host 10.0.0.5,
  so the load balancer keeps a host that is not the affinity host.
\<close>

theorem shouldSelectAnotherHost_accepts_other_host:
  "shouldSelectAnotherHost ''10.0.0.7'' ''10.0.0.5'' = False \<and> ''10.0.0.5'' \<noteq> ''10.0.0.7''"
  by (simp add: shouldSelectAnotherHost_def)

section \<open>Properties of the transaction registry\<close>

lemma map_of_distinct_member:
  "distinct (map fst m) \<Longrightarrow> (k, v) \<in> set m \<Longrightarrow> map_of m k = Some v"
  by simp

lemma distinct_hm_erase: "distinct (map fst m) \<Longrightarrow> distinct (map fst (hm_erase k m))"
  by (simp add: hm_erase_def distinct_map_filter)

lemma map_of_snoc:
  "map_of (m @ [(k, v)]) k' =
     (case map_of m k' of None \<Rightarrow> (if k' = k then Some v else None) | Some w \<Rightarrow> Some w)"
  by (induction m) auto

lemma registry_inv_iff:
  "registry_inv cm \<longleftrightarrow>
     distinct (map fst (transactions cm)) \<and>
     (\<forall>k p. (k, p) \<in> set (transactions cm) \<longrightarrow>
        p < constructed cm \<and> (\<exists>t. heap cm p = Some t \<and> at_transaction_id t = k))"
  unfolding registry_inv_def list_all_iff
  by (rule arg_cong [where f = "\<lambda>b. distinct (map fst (transactions cm)) \<and> b"])
     (fastforce split: option.splits)

text \<open>
  The invariant holds in the initial state and is kept by the two functions that
  change \<^verbatim>\<open>transactions_\<close>.
\<close>

lemma registry_inv_init: "registry_inv (ConnectionManager_init ip factory)"
  by (simp add: registry_inv_def ConnectionManager_init_def)

text \<open>What \<^verbatim>\<open>newDecoderEventHandler\<close> does for a message that carries a transaction id.\<close>

lemma newDecoderEventHandler_cases:
  assumes "transaction_id md = Some k"
  shows "newDecoderEventHandler md cm =
     (case map_of (transactions cm) k of
        Some p \<Rightarrow>
          if method_type md = Ack then Inr (p, cm)
          else Inr (p, cm\<lparr>constructed := Suc (constructed cm),
                           heap := (heap cm)(constructed cm := None),
                           destroyed := destroyed cm @ [constructed cm]\<rparr>)
      | None \<Rightarrow>
          Inr (constructed cm,
               cm\<lparr>constructed := Suc (constructed cm),
                  heap := (heap cm)(constructed cm \<mapsto>
                            (ActiveTrans_ctor k)\<lparr>decoder_filters := filter_factory cm\<rparr>),
                  transactions := transactions cm @ [(k, constructed cm)]\<rparr>))"
  using assms
  by (simp add: newDecoderEventHandler_def Let_def hm_at_def hm_emplace_def createFilterChain_def
      ActiveTrans_ctor_def map_add_def split: option.splits)

lemma registry_inv_newDecoderEventHandler:
  assumes "registry_inv cm" and "newDecoderEventHandler md cm = Inr (p, cm')"
  shows "registry_inv cm'"
proof (cases "transaction_id md")
  case None
  with assms(2) show ?thesis by (simp add: newDecoderEventHandler_def)
next
  case (Some k)
  have fresh: "\<And>k' p'. (k', p') \<in> set (transactions cm) \<Longrightarrow> p' \<noteq> constructed cm"
    using assms(1) by (auto simp: registry_inv_iff)
  show ?thesis
  proof (cases "map_of (transactions cm) k")
    case None
    then have nk: "k \<notin> fst ` set (transactions cm)" by (simp add: map_of_eq_None_iff)
    from assms(2) None have cm': "cm' = cm\<lparr>constructed := Suc (constructed cm),
                  heap := (heap cm)(constructed cm \<mapsto>
                            (ActiveTrans_ctor k)\<lparr>decoder_filters := filter_factory cm\<rparr>),
                  transactions := transactions cm @ [(k, constructed cm)]\<rparr>"
      unfolding newDecoderEventHandler_cases [OF Some] by auto
    show ?thesis unfolding registry_inv_iff cm'
      using assms(1) nk fresh by (auto simp: registry_inv_iff ActiveTrans_ctor_def less_Suc_eq)
  next
    case (Some q)
    with assms(2) have "cm' = cm \<or> cm' = cm\<lparr>constructed := Suc (constructed cm),
                           heap := (heap cm)(constructed cm := None),
                           destroyed := destroyed cm @ [constructed cm]\<rparr>"
      unfolding newDecoderEventHandler_cases [OF \<open>transaction_id md = Some k\<close>]
      by (auto split: if_splits)
    then show ?thesis
    proof
      assume "cm' = cm" with assms(1) show ?thesis by simp
    next
      assume cm': "cm' = cm\<lparr>constructed := Suc (constructed cm),
                           heap := (heap cm)(constructed cm := None),
                           destroyed := destroyed cm @ [constructed cm]\<rparr>"
      show ?thesis unfolding registry_inv_iff cm'
        using assms(1) fresh by (auto simp: registry_inv_iff less_Suc_eq)
    qed
  qed
qed

lemma registry_inv_doDeferredTransDestroy:
  assumes "registry_inv cm" and "doDeferredTransDestroy p cm = Inr cm'"
  shows "registry_inv cm'"
  using assms
  by (auto simp: registry_inv_iff doDeferredTransDestroy_def hm_erase_def
      distinct_map_filter split: option.splits sum.splits)


text \<open>
  So do the functions that change an ActiveTrans in place, such as these two: the
  transaction id of an object never changes.
\<close>

lemma registry_inv_preserved:
  assumes "registry_inv cm" and "transactions cm' = transactions cm"
    and "constructed cm' = constructed cm"
    and "\<And>q t. heap cm q = Some t \<Longrightarrow>
           \<exists>t'. heap cm' q = Some t' \<and> at_transaction_id t' = at_transaction_id t"
  shows "registry_inv cm'"
proof -
  have d: "distinct (map fst (transactions cm'))"
    using assms(1,2) by (simp add: registry_inv_iff)
  have e: "\<forall>k p. (k, p) \<in> set (transactions cm') \<longrightarrow>
      p < constructed cm' \<and> (\<exists>t. heap cm' p = Some t \<and> at_transaction_id t = k)"
  proof (intro allI impI)
    fix k p assume "(k, p) \<in> set (transactions cm')"
    then have "(k, p) \<in> set (transactions cm)" by (simp add: assms(2))
    with assms(1) obtain t where "p < constructed cm" "heap cm p = Some t" "at_transaction_id t = k"
      unfolding registry_inv_iff by blast
    with assms(3) assms(4) [of p t]
    show "p < constructed cm' \<and> (\<exists>t. heap cm' p = Some t \<and> at_transaction_id t = k)"
      by auto
  qed
  from d e show ?thesis unfolding registry_inv_iff by simp
qed

lemma registry_inv_startUpstreamResponse:
  assumes "registry_inv cm" and "startUpstreamResponse p cm = Inr cm'"
  shows "registry_inv cm'"
  using assms(2)
  by (intro registry_inv_preserved [OF assms(1)])
     (auto simp: startUpstreamResponse_def split: option.splits)

lemma registry_inv_ActiveTrans_sendLocalReply:
  assumes "registry_inv cm" and "ActiveTrans_sendLocalReply enc resp end_stream p cm = Inr cm'"
  shows "registry_inv cm'"
  using assms(2)
  by (intro registry_inv_preserved [OF assms(1)])
     (auto simp: ActiveTrans_sendLocalReply_def sendLocalReply_def Let_def
        split: option.splits prod.splits if_splits)

lemma newDecoderEventHandler_indexed:
  assumes "transaction_id md = Some k" and "newDecoderEventHandler md cm = Inr (p, cm')"
  shows "map_of (transactions cm') k = Some p"
  using assms(2) unfolding newDecoderEventHandler_cases [OF assms(1)]
  by (auto simp: map_add_def split: option.splits if_splits)

lemma newDecoderEventHandler_keeps:
  assumes "map_of (transactions cm) k = Some p" and "newDecoderEventHandler md cm = Inr (q, cm')"
  shows "map_of (transactions cm') k = Some p"
proof (cases "transaction_id md")
  case None
  with assms(2) show ?thesis by (simp add: newDecoderEventHandler_def)
next
  case (Some k')
  from assms show ?thesis unfolding newDecoderEventHandler_cases [OF Some]
    by (auto simp: map_add_def split: option.splits if_splits)
qed

lemma newDecoderEventHandlers_keeps:
  "map_of (transactions cm) k = Some p \<Longrightarrow> newDecoderEventHandlers mds cm = Inr (ps, cm')
     \<Longrightarrow> map_of (transactions cm') k = Some p"
proof (induction mds arbitrary: cm ps)
  case Nil
  then show ?case by simp
next
  case (Cons md mds)
  from Cons.prems(2) obtain q cm1 qs where
    a: "newDecoderEventHandler md cm = Inr (q, cm1)" and
    b: "newDecoderEventHandlers mds cm1 = Inr (qs, cm')"
    by (auto split: sum.splits prod.splits)
  from newDecoderEventHandler_keeps [OF Cons.prems(1) a] Cons.IH b show ?case by blast
qed

text \<open>
  C2, as the code has it. Take two requests with the same transaction id \<open>k\<close>,
  the first decoded in the state \<open>cm\<close> and answered the object \<open>p1\<close>, the
  second decoded in any later state \<open>cm2\<close> of the connection in which \<open>k\<close> is
  still indexed to \<open>p1\<close>. \<^verbatim>\<open>newDecoderEventHandler\<close> answers the same
  ActiveTrans object for both, and the second request registers nothing. After the
  first decode \<open>k\<close> is indexed to \<open>p1\<close>, and requests decoded in between keep it
  so. An ACK whose id is indexed leaves the whole state as it is: the existing
  transaction is reused and nothing is constructed. A transaction is registered in
  \<^verbatim>\<open>transactions_\<close> only for an id that is not indexed yet, and it is then the
  newly constructed object.
\<close>

theorem newDecoderEventHandler_shares_transaction:
  assumes "transaction_id md1 = Some k" and "transaction_id md2 = Some k"
    and "newDecoderEventHandler md1 cm = Inr (p1, cm1)"
    and "map_of (transactions cm2) k = Some p1"
  shows "(\<exists>cm3. newDecoderEventHandler md2 cm2 = Inr (p1, cm3) \<and>
           transactions cm3 = transactions cm2 \<and>
           (method_type md2 = Ack \<longrightarrow> cm3 = cm2)) \<and>
         map_of (transactions cm1) k = Some p1 \<and>
         (newDecoderEventHandlers mds cm1 = Inr (ps, cm') \<longrightarrow>
            map_of (transactions cm') k = Some p1) \<and>
         (map_of (transactions cm) k = None \<longrightarrow>
            p1 = constructed cm \<and> transactions cm1 = transactions cm @ [(k, p1)]) \<and>
         (map_of (transactions cm) k \<noteq> None \<longrightarrow>
            map_of (transactions cm) k = Some p1 \<and> transactions cm1 = transactions cm) \<and>
         (method_type md1 = Ack \<and> map_of (transactions cm) k \<noteq> None \<longrightarrow> cm1 = cm)"
proof -
  have i: "map_of (transactions cm1) k = Some p1"
    using newDecoderEventHandler_indexed [OF assms(1,3)] .
  have between: "newDecoderEventHandlers mds cm1 = Inr (ps, cm') \<longrightarrow>
            map_of (transactions cm') k = Some p1"
    using newDecoderEventHandlers_keeps [OF i] by blast
  have first: "(map_of (transactions cm) k = None \<longrightarrow>
              p1 = constructed cm \<and> transactions cm1 = transactions cm @ [(k, p1)]) \<and>
           (map_of (transactions cm) k \<noteq> None \<longrightarrow>
              map_of (transactions cm) k = Some p1 \<and> transactions cm1 = transactions cm) \<and>
           (method_type md1 = Ack \<and> map_of (transactions cm) k \<noteq> None \<longrightarrow> cm1 = cm)"
    using assms(3) unfolding newDecoderEventHandler_cases [OF assms(1)]
    by (auto split: option.splits if_splits)
  have second: "\<exists>cm3. newDecoderEventHandler md2 cm2 = Inr (p1, cm3) \<and>
           transactions cm3 = transactions cm2 \<and> (method_type md2 = Ack \<longrightarrow> cm3 = cm2)"
    unfolding newDecoderEventHandler_cases [OF assms(2)] using assms(4) by simp
  from second i between first show ?thesis by blast
qed

text \<open>
  The theorem of C2 from the initial state: an INVITE, an INVITE of another
  transaction, then the ACK with the id of the first, and the same with the upstream
  response of the first transaction started before the ACK.
\<close>

theorem newDecoderEventHandler_shares_transaction_witness:
  "\<exists>cm1 cm2 cm3. newDecoderEventHandler invite_1 (ConnectionManager_init ''127.0.0.1'' [7]) = Inr (0, cm1) \<and>
     newDecoderEventHandlers [invite_2] cm1 = Inr ([1], cm2) \<and>
     newDecoderEventHandler ack_1 cm2 = Inr (0, cm2) \<and>
     transactions cm2 = [(''z9hG4bK-1'', 0), (''z9hG4bK-2'', 1)] \<and>
     startUpstreamResponse 0 cm2 = Inr cm3 \<and>
     newDecoderEventHandler ack_1 cm3 = Inr (0, cm3)"
proof -
  let ?cm = "ConnectionManager_init ''127.0.0.1'' [7]"
  have t1: "transaction_id invite_1 = Some ''z9hG4bK-1''" by (simp add: invite_1_def)
  have t2: "transaction_id invite_2 = Some ''z9hG4bK-2''" by (simp add: invite_2_def)
  have t3: "transaction_id ack_1 = Some ''z9hG4bK-1''" by (simp add: ack_1_def)
  obtain cm1 where a: "newDecoderEventHandler invite_1 ?cm = Inr (0, cm1)"
    and tr1: "transactions cm1 = [(''z9hG4bK-1'', 0)]" and c1: "constructed cm1 = 1"
    and h1: "heap cm1 0 = Some ((ActiveTrans_ctor ''z9hG4bK-1'')\<lparr>decoder_filters := [7]\<rparr>)"
    unfolding newDecoderEventHandler_cases [OF t1] by (simp add: ConnectionManager_init_def)
  obtain cm2 where b0: "newDecoderEventHandler invite_2 cm1 = Inr (1, cm2)"
    and tr2: "transactions cm2 = [(''z9hG4bK-1'', 0), (''z9hG4bK-2'', 1)]"
    and h2: "heap cm2 0 = Some ((ActiveTrans_ctor ''z9hG4bK-1'')\<lparr>decoder_filters := [7]\<rparr>)"
    unfolding newDecoderEventHandler_cases [OF t2] using tr1 c1 h1 by simp
  from b0 have b: "newDecoderEventHandlers [invite_2] cm1 = Inr ([1], cm2)" by simp
  have i2: "map_of (transactions cm2) ''z9hG4bK-1'' = Some 0" by (simp add: tr2)
  from newDecoderEventHandler_shares_transaction [OF t1 t3 a i2]
  have k2: "newDecoderEventHandler ack_1 cm2 = Inr (0, cm2)" by (auto simp: ack_1_def)
  obtain cm3 where s: "startUpstreamResponse 0 cm2 = Inr cm3"
    and tr3: "transactions cm3 = transactions cm2"
    using h2 by (simp add: startUpstreamResponse_def)
  have i3: "map_of (transactions cm3) ''z9hG4bK-1'' = Some 0" by (simp add: tr3 tr2)
  from newDecoderEventHandler_shares_transaction [OF t1 t3 a i3]
  have k3: "newDecoderEventHandler ack_1 cm3 = Inr (0, cm3)" by (auto simp: ack_1_def)
  from a b tr2 k2 s k3 show ?thesis by blast
qed

text \<open>
  C2 as stated fails in two places. It says that a new ActiveTrans is created only
  when the transaction id is not indexed yet: the same INVITE decoded a second time
  finds its id indexed, and the call still constructs a second ActiveTrans (the object
  1), which is destroyed again when \<^verbatim>\<open>emplace\<close> finds the key; the first object
  is returned. And it says that any two requests with the same branch token get the
  same object: when the transaction is reset between them (as the audit sweep does
  after the timeout), the second INVITE is given a new object.
\<close>

theorem newDecoderEventHandler_constructs_for_indexed_id:
  "newDecoderEventHandler invite_1 (ConnectionManager_init ''127.0.0.1'' [7]) = Inr (0, cm_one) \<and>
   constructed cm_one = 1 \<and>
   newDecoderEventHandler invite_1 cm_one =
     Inr (0, cm_one\<lparr>constructed := 2, heap := (heap cm_one)(1 := None), destroyed := [1]\<rparr>) \<and>
   onReset 0 cm_one = Inr (cm_one\<lparr>deferred_deletes := [0], transactions := []\<rparr>) \<and>
   newDecoderEventHandler invite_1 (cm_one\<lparr>deferred_deletes := [0], transactions := []\<rparr>) =
     Inr (1, cm_one\<lparr>deferred_deletes := [0], transactions := [(''z9hG4bK-1'', 1)],
                  constructed := 2,
                  heap := (heap cm_one)
                    (1 \<mapsto> (ActiveTrans_ctor ''z9hG4bK-1'')\<lparr>decoder_filters := [7]\<rparr>)\<rparr>)"
proof -
  have t1: "transaction_id invite_1 = Some ''z9hG4bK-1''" by (simp add: invite_1_def)
  have m1: "method_type invite_1 = Invite" by (simp add: invite_1_def)
  have r: "onReset 0 cm_one = Inr (cm_one\<lparr>deferred_deletes := [0], transactions := []\<rparr>)"
    by (simp add: onReset_def doDeferredTransDestroy_def hm_at_def hm_erase_def cm_one_def
        ConnectionManager_init_def ActiveTrans_ctor_def)
  show ?thesis
    unfolding newDecoderEventHandler_cases [OF t1] r
    by (simp add: m1 cm_one_def ConnectionManager_init_def)
qed

section \<open>Properties of resetAllTrans\<close>

lemma add_resets_Suc:
  "add_resets lr n (stats (count_reset lr cm)) = add_resets lr (Suc n) (stats cm)"
  by (simp add: add_resets_def count_reset_def)

text \<open>
  The loop over a part of the map: every entry visited is counted once, handed to the
  deferred deletion once and erased.
\<close>

lemma resetAllTrans_loop_result:
  assumes "distinct (map fst (transactions cm))"
    and "distinct (map fst entries)"
    and "set entries \<subseteq> set (transactions cm)"
    and "\<And>k p. (k, p) \<in> set entries \<Longrightarrow> \<exists>t. heap cm p = Some t \<and> at_transaction_id t = k"
  shows "resetAllTrans_loop lr entries cm =
    Inr (cm\<lparr>stats := add_resets lr (length entries) (stats cm),
            deferred_deletes := deferred_deletes cm @ map snd entries,
            transactions := filter (\<lambda>e. e \<notin> set entries) (transactions cm)\<rparr>)"
  using assms
proof (induction entries arbitrary: cm)
  case Nil
  show ?case by (simp add: add_resets_def)
next
  case (Cons e rest)
  obtain k p where e: "e = (k, p)" by (cases e)
  from Cons.prems(4) [of k p] e obtain t where t: "heap cm p = Some t" "at_transaction_id t = k"
    by auto
  from Cons.prems(1,3) e have at: "map_of (transactions cm) k = Some p" by simp
  define cm' where "cm' = (count_reset lr cm)\<lparr>deferred_deletes := deferred_deletes cm @ [p],
      transactions := hm_erase k (transactions cm)\<rparr>"
  have step: "onReset p (count_reset lr cm) = Inr cm'"
    using t at by (simp add: onReset_def doDeferredTransDestroy_def hm_at_def count_reset_def cm'_def)
  have tr: "transactions cm' = hm_erase k (transactions cm)" by (simp add: cm'_def)
  have keys: "\<And>x. x \<in> set rest \<Longrightarrow> fst x \<noteq> k"
    using Cons.prems(2) e by auto
  have sub: "set rest \<subseteq> set (transactions cm')"
    using Cons.prems(3) keys by (auto simp: tr hm_erase_def)
  then have fl: "filter (\<lambda>x. x \<in> set (transactions cm')) rest = rest"
    by (auto intro: filter_True)
  have ih: "resetAllTrans_loop lr rest cm' =
    Inr (cm'\<lparr>stats := add_resets lr (length rest) (stats cm'),
            deferred_deletes := deferred_deletes cm' @ map snd rest,
            transactions := filter (\<lambda>e. e \<notin> set rest) (transactions cm')\<rparr>)"
  proof (rule Cons.IH)
    show "distinct (map fst (transactions cm'))"
      using Cons.prems(1) by (simp add: tr distinct_hm_erase)
    show "distinct (map fst rest)" using Cons.prems(2) by simp
    show "set rest \<subseteq> set (transactions cm')" by (rule sub)
    show "\<exists>t. heap cm' p' = Some t \<and> at_transaction_id t = k'" if "(k', p') \<in> set rest" for k' p'
      using Cons.prems(4) [of k' p'] that by (simp add: cm'_def count_reset_def)
  qed
  have er: "filter (\<lambda>x. x \<notin> set rest) (hm_erase k (transactions cm)) =
      filter (\<lambda>x. x \<notin> set (e # rest)) (transactions cm)"
  proof -
    have "\<And>x. x \<in> set (transactions cm) \<Longrightarrow> (fst x \<noteq> k) = (x \<noteq> e)"
    proof -
      fix x assume x: "x \<in> set (transactions cm)"
      have "e \<in> set (transactions cm)" using Cons.prems(3) by simp
      with x Cons.prems(1) show "(fst x \<noteq> k) = (x \<noteq> e)"
        using e by (metis eq_key_imp_eq_value fst_conv prod.collapse)
    qed
    then have "filter (\<lambda>x. fst x \<noteq> k \<and> x \<notin> set rest) (transactions cm) =
        filter (\<lambda>x. x \<noteq> e \<and> x \<notin> set rest) (transactions cm)"
      by (intro filter_cong) auto
    then show ?thesis by (simp add: hm_erase_def)
  qed
  have fin: "cm'\<lparr>stats := add_resets lr (length rest) (stats cm'),
            deferred_deletes := deferred_deletes cm' @ map snd rest,
            transactions := filter (\<lambda>e. e \<notin> set rest) (transactions cm')\<rparr> =
       cm\<lparr>stats := add_resets lr (length (e # rest)) (stats cm),
            deferred_deletes := deferred_deletes cm @ map snd (e # rest),
            transactions := filter (\<lambda>x. x \<notin> set (e # rest)) (transactions cm)\<rparr>"
    unfolding tr er
    by (simp add: cm'_def e add_resets_def count_reset_def)
  show ?case
  proof (cases rest)
    case Nil
    have "cm' = cm\<lparr>stats := add_resets lr (length [e]) (stats cm),
            deferred_deletes := deferred_deletes cm @ map snd [e],
            transactions := filter (\<lambda>x. x \<notin> set [e]) (transactions cm)\<rparr>"
      using er unfolding Nil by (simp add: cm'_def e add_resets_def count_reset_def)
    with step Nil show ?thesis by (simp add: e)
  next
    case (Cons nxt rest')
    with sub have "nxt \<in> set (transactions cm')" by simp
    with step Cons fl ih fin show ?thesis by (simp add: e)
  qed
qed

text \<open>
  C4. In a state that satisfies the invariant of the registry, \<^verbatim>\<open>resetAllTrans\<close>
  returns normally; it counts one reset per transaction on the counter that
  \<^verbatim>\<open>local_reset\<close> selects, hands every transaction to the deferred deletion exactly
  once and leaves \<^verbatim>\<open>transactions_\<close> empty. A second call right after it, with
  either value of \<^verbatim>\<open>local_reset\<close>, iterates an empty map and changes nothing, so
  two calls leave the counters where one call leaves them.
\<close>

theorem resetAllTrans_twice_as_once:
  assumes "registry_inv cm"
  shows "\<exists>cm1. resetAllTrans lr cm = Inr cm1 \<and> (\<forall>lr'. resetAllTrans lr' cm1 = Inr cm1) \<and>
           stats cm1 = add_resets lr (length (transactions cm)) (stats cm) \<and>
           deferred_deletes cm1 = deferred_deletes cm @ map snd (transactions cm) \<and>
           transactions cm1 = []"
proof -
  let ?cm1 = "cm\<lparr>stats := add_resets lr (length (transactions cm)) (stats cm),
            deferred_deletes := deferred_deletes cm @ map snd (transactions cm),
            transactions := filter (\<lambda>e. e \<notin> set (transactions cm)) (transactions cm)\<rparr>"
  have "resetAllTrans_loop lr (transactions cm) cm = Inr ?cm1"
  proof (rule resetAllTrans_loop_result)
    show "distinct (map fst (transactions cm))" using assms by (simp add: registry_inv_def)
    then show "distinct (map fst (transactions cm))" .
    show "set (transactions cm) \<subseteq> set (transactions cm)" by simp
    show "\<exists>t. heap cm p = Some t \<and> at_transaction_id t = k" if "(k, p) \<in> set (transactions cm)" for k p
      using assms that by (auto simp: registry_inv_iff)
  qed
  then have one: "resetAllTrans lr cm = Inr ?cm1" by (simp add: resetAllTrans_def)
  have empty: "transactions ?cm1 = []" by simp
  then have two: "resetAllTrans lr' ?cm1 = Inr ?cm1" for lr' unfolding resetAllTrans_def by simp
  from one two empty show ?thesis by (intro exI [of _ ?cm1]) simp
qed

text \<open>The theorem of C4 at the example state with two transactions, closed by the remote side.\<close>

theorem resetAllTrans_twice_as_once_witness:
  "registry_inv cm_two \<and>
   (\<exists>cm1. resetAllTrans False cm_two = Inr cm1 \<and> resetAllTrans True cm1 = Inr cm1 \<and>
      resetAllTrans False cm1 = Inr cm1 \<and>
      cx_destroy_remote_with_active_rq (stats cm1) = 2 \<and>
      cx_destroy_local_with_active_rq (stats cm1) = 0 \<and>
      deferred_deletes cm1 = [0, 1] \<and> transactions cm1 = [])"
proof -
  have inv: "registry_inv cm_two"
    by (simp add: registry_inv_def cm_two_def ConnectionManager_init_def ActiveTrans_ctor_def)
  from resetAllTrans_twice_as_once [OF inv, of False] obtain cm1 where
    "resetAllTrans False cm_two = Inr cm1" "\<forall>lr'. resetAllTrans lr' cm1 = Inr cm1"
    "stats cm1 = add_resets False (length (transactions cm_two)) (stats cm_two)"
    "deferred_deletes cm1 = deferred_deletes cm_two @ map snd (transactions cm_two)"
    "transactions cm1 = []" by blast
  then have "resetAllTrans False cm_two = Inr cm1 \<and> resetAllTrans True cm1 = Inr cm1 \<and>
      resetAllTrans False cm1 = Inr cm1 \<and>
      cx_destroy_remote_with_active_rq (stats cm1) = 2 \<and>
      cx_destroy_local_with_active_rq (stats cm1) = 0 \<and>
      deferred_deletes cm1 = [0, 1] \<and> transactions cm1 = []"
    by (simp add: add_resets_def cm_two_def ConnectionManager_init_def)
  with inv show ?thesis by blast
qed

section \<open>Properties of the audit sweep\<close>

text \<open>
  The quotient \<^verbatim>\<open>duration_cast\<close> computes is the truncated quotient of the signed
  tick count.
\<close>

lemma sdiv_bound: "\<bar>(d::int) sdiv 1000000\<bar> * 1000000 \<le> \<bar>d\<bar>"
proof -
  have "\<bar>d sdiv 1000000\<bar> = \<bar>d\<bar> div 1000000"
    by (simp add: signed_divide_int_def abs_mult sgn_if)
  then show ?thesis by simp
qed

lemma sint_duration_cast_ms: "sint (duration_cast_ms d) = sint d sdiv 1000000"
proof -
  have "- (2 ^ 63) \<le> sint d" "sint d < 2 ^ 63"
    using sint_ge [of d] sint_lt [of d] by simp_all
  with sdiv_bound [of "sint d"]
  have "- (2 ^ 63) \<le> sint d sdiv 1000000" "sint d sdiv 1000000 < 2 ^ 63"
    by linarith+
  then show ?thesis
    by (simp add: duration_cast_ms_def sint_sbintrunc' signed_take_bit_int_eq_self)
qed

lemma sdiv_ge_iff: "0 < t \<Longrightarrow> t \<le> (d::int) sdiv 1000000 \<longleftrightarrow> t * 1000000 \<le> d"
proof (cases "0 \<le> d")
  case True
  assume "0 < t"
  from True have "d sdiv 1000000 = d div 1000000"
    by (simp add: signed_divide_int_def sgn_if)
  then show ?thesis by simp arith
next
  case False
  assume "0 < t"
  from False have "d sdiv 1000000 = - ((- d) div 1000000)"
    by (simp add: signed_divide_int_def sgn_if)
  with False \<open>0 < t\<close> show ?thesis by simp
qed

text \<open>
  For a positive timeout and two time points whose difference fits 64 bits, an item
  has expired exactly when the difference of the two time points, in ticks, has
  reached the timeout.
\<close>

lemma expired_ticks:
  assumes "0 < sint timeout" and "ticks_fit p1 item"
  shows "expired p1 timeout item \<longleftrightarrow> sint timeout * 1000000 \<le> sint p1 - sint (start_time item)"
proof -
  have "sint (p1 - start_time item) = sint p1 - sint (start_time item)"
    using assms(2) by (simp add: ticks_fit_def sint_word_ariths signed_take_bit_int_eq_self)
  with assms(1) show ?thesis
    by (simp add: expired_def timestamp_def word_sle_eq sint_duration_cast_ms sdiv_ge_iff)
qed

text \<open>
  Whatever the timeout, when the difference fits 64 bits an item has expired exactly
  when the difference in whole milliseconds, truncated towards zero, has reached the
  timeout.
\<close>

lemma expired_ms:
  assumes "ticks_fit p1 item"
  shows "expired p1 timeout item \<longleftrightarrow>
           sint timeout \<le> (sint p1 - sint (start_time item)) sdiv 1000000"
proof -
  have "sint (p1 - start_time item) = sint p1 - sint (start_time item)"
    using assms by (simp add: ticks_fit_def sint_word_ariths signed_take_bit_int_eq_self)
  then show ?thesis
    by (simp add: expired_def timestamp_def word_sle_eq sint_duration_cast_ms)
qed

text \<open>
  Where the difference does not fit, the age the code computes is not the difference:
  an item that started \<open>2\<^sup>6\<^sup>3 - 1\<close> ticks before the epoch is not reset
  \<open>2\<^sup>6\<^sup>3 - 1\<close> ticks after it.
\<close>

lemma expired_wraps:
  "\<not> expired 9223372036854775807 500
       \<lparr>active_trans = a, upstream_request = None, start_time = - 9223372036854775807,
        deleted = False\<rparr>"
  by (simp add: expired_def timestamp_def duration_cast_ms_def signed_divide_int_def word_sle_eq)

text \<open>The loop: the deleted entries go, the others stay, and the expired ones among them are reset in order.\<close>

lemma audit_sweep_eq:
  "audit_sweep cb p1 timeout m w =
     (case resets_in_order cb
             (map (\<lambda>e. active_trans (snd e))
                (filter (\<lambda>e. \<not> deleted (snd e) \<and> expired p1 timeout (snd e)) m)) w of
        Inl e \<Rightarrow> Inl e
      | Inr w' \<Rightarrow> Inr (filter (\<lambda>e. \<not> deleted (snd e)) m, w'))"
proof (induction m arbitrary: w)
  case Nil
  show ?case by simp
next
  case (Cons e m)
  obtain k item where e: "e = (k, item)" by (cases e)
  show ?case
  proof (cases "deleted item")
    case True
    with Cons.IH [of w] show ?thesis by (simp add: e split: sum.splits)
  next
    case False
    show ?thesis
    proof (cases "expired p1 timeout item")
      case True
      show ?thesis
      proof (cases "cb (active_trans item) w")
        case (Inl x)
        with True False show ?thesis by (simp add: e expired_def resetTrans_def)
      next
        case (Inr w')
        with True False Cons.IH [of w'] show ?thesis
          by (simp add: e expired_def resetTrans_def split: sum.splits)
      qed
    next
      case no: False
      with False Cons.IH [of w] show ?thesis
        by (simp add: e expired_def split: sum.splits)
    qed
  qed
qed

text \<open>
  C5. One firing of the audit timer leaves in \<^verbatim>\<open>transaction_info_map_\<close> exactly
  the entries whose deleted flag is not set, in their order; it calls
  \<^verbatim>\<open>onReset\<close>, in the order of the map, on the transaction of every entry that
  stays and whose age, as the code computes it on 64-bit tick counts, has reached
  \<^verbatim>\<open>transaction_timeout_\<close>, and such an entry is not erased by this sweep; and a
  sweep that runs to its end arms the timer with two seconds. The only way not to
  reach the end is an exception of one of the \<^verbatim>\<open>onReset\<close> calls, which leaves
  the function.

  For a positive timeout, and when for every entry that stays the difference of now
  and its timestamp fits 64 bits, the entries that are reset are exactly those that
  stay and for which now minus timestamp, in nanoseconds, is at least the timeout of
  \<^verbatim>\<open>transaction_timeout_\<close> milliseconds.
\<close>

theorem auditTimerAction_sweep:
  "auditTimerAction cb p1 tls w =
     (case resets_in_order cb
             (map (\<lambda>e. active_trans (snd e))
                (filter (\<lambda>e. \<not> deleted (snd e) \<and> expired p1 (transaction_timeout tls) (snd e))
                   (transaction_info_map tls))) w of
        Inl e \<Rightarrow> Inl e
      | Inr w' \<Rightarrow>
          Inr (tls\<lparr>transaction_info_map :=
                      filter (\<lambda>e. \<not> deleted (snd e)) (transaction_info_map tls),
                    audit_timer := Some 2000\<rparr>, w')) \<and>
   (0 < sint (transaction_timeout tls) \<and>
    (\<forall>e \<in> set (transaction_info_map tls). \<not> deleted (snd e) \<longrightarrow> ticks_fit p1 (snd e)) \<longrightarrow>
      filter (\<lambda>e. \<not> deleted (snd e) \<and> expired p1 (transaction_timeout tls) (snd e))
        (transaction_info_map tls) =
      filter (\<lambda>e. \<not> deleted (snd e) \<and>
                sint (transaction_timeout tls) * 1000000 \<le> sint p1 - sint (start_time (snd e)))
        (transaction_info_map tls))"
proof (intro conjI impI)
  show "auditTimerAction cb p1 tls w =
     (case resets_in_order cb
             (map (\<lambda>e. active_trans (snd e))
                (filter (\<lambda>e. \<not> deleted (snd e) \<and> expired p1 (transaction_timeout tls) (snd e))
                   (transaction_info_map tls))) w of
        Inl e \<Rightarrow> Inl e
      | Inr w' \<Rightarrow>
          Inr (tls\<lparr>transaction_info_map :=
                      filter (\<lambda>e. \<not> deleted (snd e)) (transaction_info_map tls),
                    audit_timer := Some 2000\<rparr>, w'))"
    unfolding auditTimerAction_def audit_sweep_eq by (simp split: sum.splits)
next
  assume a: "0 < sint (transaction_timeout tls) \<and>
    (\<forall>e \<in> set (transaction_info_map tls). \<not> deleted (snd e) \<longrightarrow> ticks_fit p1 (snd e))"
  show "filter (\<lambda>e. \<not> deleted (snd e) \<and> expired p1 (transaction_timeout tls) (snd e))
        (transaction_info_map tls) =
      filter (\<lambda>e. \<not> deleted (snd e) \<and>
                sint (transaction_timeout tls) * 1000000 \<le> sint p1 - sint (start_time (snd e)))
        (transaction_info_map tls)"
  proof (rule filter_cong [OF refl])
    fix e assume "e \<in> set (transaction_info_map tls)"
    with a show "(\<not> deleted (snd e) \<and> expired p1 (transaction_timeout tls) (snd e)) =
        (\<not> deleted (snd e) \<and>
           sint (transaction_timeout tls) * 1000000 \<le> sint p1 - sint (start_time (snd e)))"
      using expired_ticks [of "transaction_timeout tls" p1 "snd e"] by blast
  qed
qed

text \<open>
  The theorem of C5 at the example table, 0.6 s after time 0, with the callbacks of
  the example ConnectionManager: the first entry is reset and stays, the second is
  erased, the third stays untouched; the first entry is the one entry that stays and is
  at least 500 ms old.
\<close>

theorem auditTimerAction_sweep_witness:
  "(\<exists>cm. auditTimerAction onReset 600000000 tls_three cm_two =
      Inr (tls_three\<lparr>transaction_info_map :=
             [(''z9hG4bK-1'', \<lparr>active_trans = 0, upstream_request = None, start_time = 0, deleted = False\<rparr>),
              (''z9hG4bK-3'', \<lparr>active_trans = 2, upstream_request = None, start_time = 400000000,
                          deleted = False\<rparr>)],
            audit_timer := Some 2000\<rparr>, cm) \<and>
     deferred_deletes cm = [0] \<and> transactions cm = [(''z9hG4bK-2'', 1)]) \<and>
   filter (\<lambda>e. \<not> deleted (snd e) \<and> expired 600000000 500 (snd e)) (transaction_info_map tls_three) =
     [(''z9hG4bK-1'', \<lparr>active_trans = 0, upstream_request = None, start_time = 0, deleted = False\<rparr>)]"
proof -
  have r: "onReset 0 cm_two = Inr (cm_two\<lparr>deferred_deletes := [0], transactions := [(''z9hG4bK-2'', 1)]\<rparr>)"
    by (simp add: onReset_def doDeferredTransDestroy_def cm_two_def ConnectionManager_init_def
        ActiveTrans_ctor_def hm_at_def hm_erase_def)
  have t: "transaction_timeout tls_three = 500" by (simp add: tls_three_def)
  have h: "0 < sint (transaction_timeout tls_three) \<and>
    (\<forall>e \<in> set (transaction_info_map tls_three). \<not> deleted (snd e) \<longrightarrow> ticks_fit 600000000 (snd e))"
    by (simp add: tls_three_def ticks_fit_def)
  have f: "filter (\<lambda>e. \<not> deleted (snd e) \<and> expired 600000000 500 (snd e)) (transaction_info_map tls_three) =
     [(''z9hG4bK-1'', \<lparr>active_trans = 0, upstream_request = None, start_time = 0, deleted = False\<rparr>)]"
    using auditTimerAction_sweep [of onReset 600000000 tls_three cm_two] h
    by (simp add: t) (simp add: tls_three_def)
  from auditTimerAction_sweep [of onReset 600000000 tls_three cm_two]
  have "auditTimerAction onReset 600000000 tls_three cm_two =
     (case resets_in_order onReset
             (map (\<lambda>e. active_trans (snd e))
                (filter (\<lambda>e. \<not> deleted (snd e) \<and> expired 600000000 500 (snd e))
                   (transaction_info_map tls_three))) cm_two of
        Inl e \<Rightarrow> Inl e
      | Inr w' \<Rightarrow>
          Inr (tls_three\<lparr>transaction_info_map :=
                      filter (\<lambda>e. \<not> deleted (snd e)) (transaction_info_map tls_three),
                    audit_timer := Some 2000\<rparr>, w'))"
    by (simp add: t)
  with f r show ?thesis by (simp add: tls_three_def)
qed

section \<open>Properties of the filter chain\<close>












section \<open>Properties of local replies and forwarded responses\<close>

lemma carries_ep_iff: "carries_ep ip bytes \<longleftrightarrow> (\<exists>pre post. bytes = pre @ ''ep='' @ ip @ post)"
  unfolding carries_ep_def sv_find_def using sv_find_from_None [of "''ep='' @ ip" bytes 0]
  by auto

lemma encoder_injects_ep_example: "encoder_injects_ep enc_append_ep"
  unfolding encoder_injects_ep_def carries_ep_iff
proof (intro allI impI)
  fix m :: MessageMetadata and ip
  assume "ep m = Some ip"
  then have "enc_append_ep m = (raw_msg m @ '';'') @ ''ep='' @ ip @ []"
    by (simp add: enc_append_ep_def)
  then show "\<exists>pre post. enc_append_ep m = pre @ ''ep='' @ ip @ post" by blast
qed

lemma sendLocalReply_open:
  "conn_state cm \<noteq> Closed \<Longrightarrow>
   sendLocalReply enc md resp end_stream cm =
     (setEP (local_ip cm) (snd (resp md)),
      cm\<lparr>local_reply_calls := Suc (local_reply_calls cm),
         conn_writes := conn_writes cm @ [(enc (setEP (local_ip cm) (snd (resp md))), end_stream)],
         conn_closes := conn_closes cm @ (if end_stream then [FlushWrite] else []),
         stats := count_response (fst (resp md)) (stats cm)\<rparr>)"
  by (simp add: sendLocalReply_def Let_def split: prod.splits)

lemma sendLocalReply_closed:
  "conn_state cm = Closed \<Longrightarrow>
   sendLocalReply enc md resp end_stream cm =
     (md, cm\<lparr>local_reply_calls := Suc (local_reply_calls cm)\<rparr>)"
  by (simp add: sendLocalReply_def Let_def)

lemma ResponseDecoder_transportEnd_open:
  assumes "heap cm p = Some t" and "response_decoder t = Some rd" and "rd_metadata rd = Some rmd"
    and "conn_state cm \<noteq> Closed"
  shows "ResponseDecoder_transportEnd enc p cm =
    (Inr Continue,
     cm\<lparr>heap := (heap cm)(p \<mapsto> t\<lparr>response_decoder :=
                    Some (rd\<lparr>rd_metadata := Some (setEP (local_ip cm) rmd)\<rparr>)\<rparr>),
        conn_writes := conn_writes cm @ [(enc (setEP (local_ip cm) rmd), False)],
        stats := (stats cm)\<lparr>response := Suc (response (stats cm))\<rparr>\<rparr>)"
  using assms by (simp add: ResponseDecoder_transportEnd_def Let_def)


lemma upstreamData_open:
  assumes "heap cm p = Some t" and "response_decoder t = Some rd" and "conn_state cm \<noteq> Closed"
    and "tb rmd = Continue"
  shows "\<exists>cm'. upstreamData tb enc rmd p cm = (Inr Complete, cm') \<and>
          conn_writes cm' = conn_writes cm @ [(enc (setEP (local_ip cm) rmd), False)]"
  using assms
  by (simp add: upstreamData_def ResponseDecoder_onData_def ResponseDecoder_transportEnd_def Let_def
      ResponseDecoder_messageBegin_def ResponseDecoder_messageEnd_def)




text \<open>
  C6. With an encoder that does what the specification says of it:
  \<^item> a local reply that is sent (the downstream connection is not closed) is the
    encoding of the metadata after \<^verbatim>\<open>setEP(getLocalIp())\<close>, so the EP is the local
    address when the encoder runs, and the bytes written carry \<^verbatim>\<open>ep=<local_ip>\<close>;
    on a closed connection nothing is written;
  \<^item> an upstream response that \<^verbatim>\<open>ResponseDecoder::transportEnd\<close> forwards is
    the encoding of the response metadata after \<^verbatim>\<open>setEP(getLocalIp())\<close>, and the
    bytes written carry \<^verbatim>\<open>ep=<local_ip>\<close>; this is the one write
    \<^verbatim>\<open>upstreamData\<close> makes for a response.
\<close>

theorem egress_sets_EP:
  assumes "encoder_injects_ep enc"
  shows
   "(conn_state cm \<noteq> Closed \<longrightarrow>
       (\<exists>md' cm'. sendLocalReply enc md resp end_stream cm = (md', cm') \<and>
          md' = setEP (local_ip cm) (snd (resp md)) \<and> ep md' = Some (local_ip cm) \<and>
          conn_writes cm' = conn_writes cm @ [(enc md', end_stream)] \<and>
          carries_ep (local_ip cm) (enc md'))) \<and>
    (conn_state cm = Closed \<longrightarrow>
       conn_writes (snd (sendLocalReply enc md resp end_stream cm)) = conn_writes cm) \<and>
    (heap cm p = Some t \<and> response_decoder t = Some rd \<and> rd_metadata rd = Some rmd \<and>
     conn_state cm \<noteq> Closed \<longrightarrow>
       (\<exists>cm'. ResponseDecoder_transportEnd enc p cm = (Inr Continue, cm') \<and>
          ep (setEP (local_ip cm) rmd) = Some (local_ip cm) \<and>
          conn_writes cm' = conn_writes cm @ [(enc (setEP (local_ip cm) rmd), False)] \<and>
          carries_ep (local_ip cm) (enc (setEP (local_ip cm) rmd)))) \<and>
    (heap cm p = Some t \<and> response_decoder t = Some rd \<and> tb rmd = Continue \<and>
     conn_state cm \<noteq> Closed \<longrightarrow>
       (\<exists>cm'. upstreamData tb enc rmd p cm = (Inr Complete, cm') \<and>
          conn_writes cm' = conn_writes cm @ [(enc (setEP (local_ip cm) rmd), False)]))"
proof -
  have c: "carries_ep ip (enc (setEP ip m))" for ip m
    using assms by (simp add: encoder_injects_ep_def setEP_def)
  show ?thesis
  proof (intro conjI impI)
    assume "conn_state cm \<noteq> Closed"
    then show "\<exists>md' cm'. sendLocalReply enc md resp end_stream cm = (md', cm') \<and>
          md' = setEP (local_ip cm) (snd (resp md)) \<and> ep md' = Some (local_ip cm) \<and>
          conn_writes cm' = conn_writes cm @ [(enc md', end_stream)] \<and>
          carries_ep (local_ip cm) (enc md')"
      using c by (simp add: sendLocalReply_open setEP_def)
  next
    assume "conn_state cm = Closed"
    then show "conn_writes (snd (sendLocalReply enc md resp end_stream cm)) = conn_writes cm"
      by (simp add: sendLocalReply_closed)
  next
    assume "heap cm p = Some t \<and> response_decoder t = Some rd \<and> rd_metadata rd = Some rmd \<and>
     conn_state cm \<noteq> Closed"
    then show "\<exists>cm'. ResponseDecoder_transportEnd enc p cm = (Inr Continue, cm') \<and>
          ep (setEP (local_ip cm) rmd) = Some (local_ip cm) \<and>
          conn_writes cm' = conn_writes cm @ [(enc (setEP (local_ip cm) rmd), False)] \<and>
          carries_ep (local_ip cm) (enc (setEP (local_ip cm) rmd))"
      using c by (simp add: ResponseDecoder_transportEnd_open) (simp add: setEP_def)
  next
    assume "heap cm p = Some t \<and> response_decoder t = Some rd \<and> tb rmd = Continue \<and>
     conn_state cm \<noteq> Closed"
    then show "\<exists>cm'. upstreamData tb enc rmd p cm = (Inr Complete, cm') \<and>
          conn_writes cm' = conn_writes cm @ [(enc (setEP (local_ip cm) rmd), False)]"
      using upstreamData_open by blast
  qed
qed

text \<open>
  The theorem of C6 with the example encoder: a local reply for the INVITE and the
  200 OK forwarded downstream, both with the local address 127.0.0.1.
\<close>

theorem egress_sets_EP_witness:
  "encoder_injects_ep enc_append_ep \<and>
   (\<exists>md' cm'. sendLocalReply enc_append_ep invite_1 (AppException_encode ProtocolError ''bad'') False
        cm_upstream = (md', cm') \<and>
      ep md' = Some ''127.0.0.1'' \<and> conn_writes cm' = [('';ep=127.0.0.1'', False)] \<and>
      carries_ep ''127.0.0.1'' '';ep=127.0.0.1'') \<and>
   (\<exists>cm'. upstreamData tb_continue enc_append_ep ok_200 0 cm_upstream = (Inr Complete, cm') \<and>
      conn_writes cm' = [(''SIP/2.0 200 OK;ep=127.0.0.1'', False)])"
proof -
  note e = encoder_injects_ep_example
  have o: "conn_state cm_upstream \<noteq> Closed"
    by (simp add: cm_upstream_def ConnectionManager_init_def)
  have h: "heap cm_upstream 0 = Some ((ActiveTrans_ctor ''z9hG4bK-1'')
                 \<lparr>metadata := Some invite_1,
                  response_decoder := Some \<lparr>rd_metadata = None\<rparr>\<rparr>)"
    by (simp add: cm_upstream_def)
  have ip: "local_ip cm_upstream = ''127.0.0.1''" and w: "conn_writes cm_upstream = []"
    by (simp_all add: cm_upstream_def ConnectionManager_init_def)
  note th = egress_sets_EP [OF e, where cm = cm_upstream and p = 0 and tb = tb_continue
      and rmd = ok_200 and md = invite_1 and end_stream = False
      and resp = "AppException_encode ProtocolError ''bad''"
      and rd = "\<lparr>rd_metadata = None\<rparr>"
      and t = "(ActiveTrans_ctor ''z9hG4bK-1'')
                 \<lparr>metadata := Some invite_1,
                  response_decoder := Some \<lparr>rd_metadata = None\<rparr>\<rparr>"]
  from th o obtain md' cm' where
    "sendLocalReply enc_append_ep invite_1 (AppException_encode ProtocolError ''bad'') False
        cm_upstream = (md', cm')"
    "md' = setEP (local_ip cm_upstream) (snd (AppException_encode ProtocolError ''bad'' invite_1))"
    "ep md' = Some (local_ip cm_upstream)"
    "conn_writes cm' = conn_writes cm_upstream @ [(enc_append_ep md', False)]"
    "carries_ep (local_ip cm_upstream) (enc_append_ep md')"
    by blast
  then have A: "\<exists>md' cm'. sendLocalReply enc_append_ep invite_1 (AppException_encode ProtocolError ''bad'') False
        cm_upstream = (md', cm') \<and>
      ep md' = Some ''127.0.0.1'' \<and> conn_writes cm' = [('';ep=127.0.0.1'', False)] \<and>
      carries_ep ''127.0.0.1'' '';ep=127.0.0.1''"
    by (simp add: ip w enc_append_ep_def setEP_def AppException_encode_def invite_1_def
        MessageMetadata_default_def)
  from th o h obtain cm'' where
    "upstreamData tb_continue enc_append_ep ok_200 0 cm_upstream = (Inr Complete, cm'')"
    "conn_writes cm'' = conn_writes cm_upstream @ [(enc_append_ep (setEP (local_ip cm_upstream) ok_200), False)]"
    by (auto simp: tb_continue_def)
  then have B: "\<exists>cm'. upstreamData tb_continue enc_append_ep ok_200 0 cm_upstream = (Inr Complete, cm') \<and>
      conn_writes cm' = [(''SIP/2.0 200 OK;ep=127.0.0.1'', False)]"
    by (simp add: ip w enc_append_ep_def setEP_def ok_200_def MessageMetadata_default_def)
  from e A B show ?thesis by blast
qed




section \<open>Properties of the answers of the routing assistant\<close>

lemma hm_emplace_map_of:
  "map_of (hm_emplace k v m) k' =
     (case map_of m k' of Some w \<Rightarrow> Some w | None \<Rightarrow> if k' = k then Some v else None)"
  by (auto simp: hm_emplace_def map_add_def split: option.splits)

lemma retrieve_loop_result:
  assumes "decoder_metadata cm = Some md"
  shows "\<exists>cm1. retrieve_loop items cm = Inr cm1 \<and>
     cm1 = cm\<lparr>decoder_metadata := decoder_metadata cm1, p_cookie_ip_map := p_cookie_ip_map cm1\<rparr> \<and>
     decoder_metadata cm1 =
       Some (case filter (\<lambda>e. snd e \<noteq> []) items of [] \<Rightarrow> md
             | e # es \<Rightarrow> md\<lparr>destination := Some (snd (last (e # es)))\<rparr>) \<and>
     (\<forall>k. map_of (p_cookie_ip_map cm1) k =
        (case map_of (p_cookie_ip_map cm) k of
           Some h \<Rightarrow> Some h
         | None \<Rightarrow> map_of (filter (\<lambda>e. snd e \<noteq> []) items) k))"
  using assms
proof (induction items arbitrary: cm md)
  case Nil
  then show ?case by (simp split: option.splits)
next
  case (Cons e items)
  obtain key host where e: "e = (key, host)" by (cases e)
  show ?case
  proof (cases "host = []")
    case True
    with Cons.IH [OF Cons.prems] show ?thesis by (simp add: e cong: option.case_cong)
  next
    case False
    let ?cm' = "cm\<lparr>decoder_metadata := Some (setDestination host md),
                   p_cookie_ip_map := hm_emplace key host (p_cookie_ip_map cm)\<rparr>"
    have dm: "decoder_metadata ?cm' = Some (md\<lparr>destination := Some host\<rparr>)"
      by (simp add: setDestination_def)
    from Cons.IH [OF dm] obtain cm1 where
      r: "retrieve_loop items ?cm' = Inr cm1" and
      f: "cm1 = ?cm'\<lparr>decoder_metadata := decoder_metadata cm1, p_cookie_ip_map := p_cookie_ip_map cm1\<rparr>" and
      d: "decoder_metadata cm1 =
       Some (case filter (\<lambda>e. snd e \<noteq> []) items of [] \<Rightarrow> md\<lparr>destination := Some host\<rparr>
             | e # es \<Rightarrow> md\<lparr>destination := Some host\<rparr>\<lparr>destination := Some (snd (last (e # es)))\<rparr>)" and
      m: "\<forall>k. map_of (p_cookie_ip_map cm1) k =
        (case map_of (p_cookie_ip_map ?cm') k of
           Some h \<Rightarrow> Some h
         | None \<Rightarrow> map_of (filter (\<lambda>e. snd e \<noteq> []) items) k)"
      by blast
    have r': "retrieve_loop (e # items) cm = Inr cm1"
      using r False Cons.prems by (simp add: e)
    have f': "cm1 = cm\<lparr>decoder_metadata := decoder_metadata cm1, p_cookie_ip_map := p_cookie_ip_map cm1\<rparr>"
      by (subst f) simp
    have d': "decoder_metadata cm1 =
       Some (case filter (\<lambda>e. snd e \<noteq> []) (e # items) of [] \<Rightarrow> md
             | e # es \<Rightarrow> md\<lparr>destination := Some (snd (last (e # es)))\<rparr>)"
      using d False by (simp add: e split: list.splits)
    have m': "\<forall>k. map_of (p_cookie_ip_map cm1) k =
        (case map_of (p_cookie_ip_map cm) k of
           Some h \<Rightarrow> Some h
         | None \<Rightarrow> map_of (filter (\<lambda>e. snd e \<noteq> []) (e # items)) k)"
      using m False by (auto simp: e hm_emplace_map_of split: option.splits)
    from r' f' d' m' show ?thesis by blast
  qed
qed

lemma retrieve_loop_empty_hosts:
  "\<forall>e \<in> set items. snd e = [] \<Longrightarrow> retrieve_loop items cm = Inr cm"
  by (induction items) auto

text \<open>
  C9, as the code has it. When \<^verbatim>\<open>complete\<close> receives a
  \<^verbatim>\<open>RetrieveLskpmcResp\<close> and the decoder has a current metadata, the loop over the
  pairs returns normally and \<^verbatim>\<open>complete\<close> then re-drives the decoder
  (\<^verbatim>\<open>continueHanding\<close>, which calls the decoder with the flag set) on the state the
  loop leaves. That state differs from the one before in the \<open>destination\<close> field of
  the current metadata and in \<^verbatim>\<open>PCookieIPMap\<close> only. When some pair has a
  non-empty host, the \<open>destination\<close> field holds the host of the last such pair,
  every such pair having set it in turn, and the other fields of the metadata are as
  before; a key that was in the map keeps the host it had, and a key that was not is
  given the host of its pair with a non-empty host. When no pair has a non-empty host
  the state, the destination with it, is as before.
\<close>

theorem complete_retrieve:
  assumes "decoder_metadata cm = Some md"
  shows "\<exists>cm1. retrieve_loop items cm = Inr cm1 \<and>
     complete dec RetrieveLskpmcResp (RetrieveLskpmcResponse items) cm = continueHanding dec cm1 \<and>
     continueHanding dec cm1 = dec True cm1 \<and>
     cm1 = cm\<lparr>decoder_metadata := decoder_metadata cm1, p_cookie_ip_map := p_cookie_ip_map cm1\<rparr> \<and>
     decoder_metadata cm1 =
       Some (case filter (\<lambda>e. snd e \<noteq> []) items of [] \<Rightarrow> md
             | e # es \<Rightarrow> md\<lparr>destination := Some (snd (last (e # es)))\<rparr>) \<and>
     (\<forall>k. map_of (p_cookie_ip_map cm1) k =
        (case map_of (p_cookie_ip_map cm) k of
           Some h \<Rightarrow> Some h
         | None \<Rightarrow> map_of (filter (\<lambda>e. snd e \<noteq> []) items) k)) \<and>
     (filter (\<lambda>e. snd e \<noteq> []) items \<noteq> [] \<longrightarrow>
        map_option destination (decoder_metadata cm1) =
          Some (Some (snd (last (filter (\<lambda>e. snd e \<noteq> []) items))))) \<and>
     (filter (\<lambda>e. snd e \<noteq> []) items = [] \<longrightarrow>
        cm1 = cm \<and> map_option destination (decoder_metadata cm1) = Some (destination md))"
proof -
  from retrieve_loop_result [OF assms, of items] obtain cm1 where
    r: "retrieve_loop items cm = Inr cm1" and
    f: "cm1 = cm\<lparr>decoder_metadata := decoder_metadata cm1, p_cookie_ip_map := p_cookie_ip_map cm1\<rparr>" and
    d: "decoder_metadata cm1 =
       Some (case filter (\<lambda>e. snd e \<noteq> []) items of [] \<Rightarrow> md
             | e # es \<Rightarrow> md\<lparr>destination := Some (snd (last (e # es)))\<rparr>)" and
    m: "\<forall>k. map_of (p_cookie_ip_map cm1) k =
        (case map_of (p_cookie_ip_map cm) k of
           Some h \<Rightarrow> Some h
         | None \<Rightarrow> map_of (filter (\<lambda>e. snd e \<noteq> []) items) k)"
    by blast
  have c: "complete dec RetrieveLskpmcResp (RetrieveLskpmcResponse items) cm = continueHanding dec cm1"
    by (simp add: complete_def r)
  have e: "filter (\<lambda>e. snd e \<noteq> []) items = [] \<longrightarrow>
        cm1 = cm \<and> map_option destination (decoder_metadata cm1) = Some (destination md)"
  proof
    assume "filter (\<lambda>e. snd e \<noteq> []) items = []"
    then have "\<forall>e \<in> set items. snd e = []" by (simp add: filter_empty_conv)
    from retrieve_loop_empty_hosts [OF this, of cm] r have "cm1 = cm" by simp
    with assms show "cm1 = cm \<and> map_option destination (decoder_metadata cm1) = Some (destination md)"
      by simp
  qed
  have n: "filter (\<lambda>e. snd e \<noteq> []) items \<noteq> [] \<longrightarrow>
        map_option destination (decoder_metadata cm1) =
          Some (Some (snd (last (filter (\<lambda>e. snd e \<noteq> []) items))))"
    unfolding d by (simp split: list.splits)
  have h: "continueHanding dec cm1 = dec True cm1" by (simp add: continueHanding_def)
  from r c h f d m n e show ?thesis by blast
qed

text \<open>
  The theorem of C9 for an answer with three pairs: \<^verbatim>\<open>abc\<close> is in the map
  already, \<^verbatim>\<open>def\<close> is new, and \<^verbatim>\<open>ghi\<close> comes with an empty host.
\<close>

theorem complete_retrieve_witness:
  "\<exists>cm1. complete dec_idle RetrieveLskpmcResp
       (RetrieveLskpmcResponse [(''abc'', ''10.0.0.9''), (''def'', ''10.0.0.5''), (''ghi'', [])])
       cm_retrieve = Inr cm1 \<and>
     decoder_metadata cm1 = Some (invite_1\<lparr>destination := Some ''10.0.0.5''\<rparr>) \<and>
     map_option destination (decoder_metadata cm1) = Some (Some ''10.0.0.5'') \<and>
     map_of (p_cookie_ip_map cm1) ''abc'' = Some ''10.0.0.1'' \<and>
     map_of (p_cookie_ip_map cm1) ''def'' = Some ''10.0.0.5'' \<and>
     map_of (p_cookie_ip_map cm1) ''ghi'' = None"
proof -
  have dm: "decoder_metadata cm_retrieve = Some invite_1"
    by (simp add: cm_retrieve_def)
  have pm: "p_cookie_ip_map cm_retrieve = [(''abc'', ''10.0.0.1'')]"
    by (simp add: cm_retrieve_def)
  from complete_retrieve [OF dm, where dec = dec_idle
      and items = "[(''abc'', ''10.0.0.9''), (''def'', ''10.0.0.5''), (''ghi'', [])]"]
  obtain cm1 where
    "complete dec_idle RetrieveLskpmcResp
       (RetrieveLskpmcResponse [(''abc'', ''10.0.0.9''), (''def'', ''10.0.0.5''), (''ghi'', [])])
       cm_retrieve = continueHanding dec_idle cm1"
    "continueHanding dec_idle cm1 = dec_idle True cm1"
    "decoder_metadata cm1 =
       Some (case filter (\<lambda>e. snd e \<noteq> [])
                    [(''abc'', ''10.0.0.9''), (''def'', ''10.0.0.5''), (''ghi'', [])] of
               [] \<Rightarrow> invite_1
             | e # es \<Rightarrow> invite_1\<lparr>destination := Some (snd (last (e # es)))\<rparr>)"
    "\<forall>k. map_of (p_cookie_ip_map cm1) k =
        (case map_of (p_cookie_ip_map cm_retrieve) k of
           Some h \<Rightarrow> Some h
         | None \<Rightarrow> map_of (filter (\<lambda>e. snd e \<noteq> [])
                       [(''abc'', ''10.0.0.9''), (''def'', ''10.0.0.5''), (''ghi'', [])]) k)"
    by blast
  then show ?thesis by (intro exI [of _ cm1]) (simp add: pm dec_idle_def)
qed

text \<open>
  C9 as stated fails where it says that every pair with a non-empty host is inserted
  into \<^verbatim>\<open>PCookieIPMap\<close>: with \<^verbatim>\<open>abc\<close> mapped to 10.0.0.1, the answer
  \<^verbatim>\<open>abc\<close> to 10.0.0.9 sets the destination to 10.0.0.9 and leaves the map as it
  was, since \<^verbatim>\<open>emplace\<close> does not replace an entry.
\<close>

theorem complete_retrieve_keeps_existing_entry:
  "complete dec_idle RetrieveLskpmcResp (RetrieveLskpmcResponse [(''abc'', ''10.0.0.9'')]) cm_retrieve =
     Inr (cm_retrieve\<lparr>decoder_metadata := Some (invite_1\<lparr>destination := Some ''10.0.0.9''\<rparr>)\<rparr>) \<and>
   map_option destination (decoder_metadata cm_retrieve) = Some None \<and>
   map_option destination
     (decoder_metadata
        (cm_retrieve\<lparr>decoder_metadata := Some (invite_1\<lparr>destination := Some ''10.0.0.9''\<rparr>)\<rparr>)) =
     Some (Some ''10.0.0.9'') \<and>
   p_cookie_ip_map cm_retrieve = [(''abc'', ''10.0.0.1'')] \<and>
   map_of (p_cookie_ip_map
             (cm_retrieve\<lparr>decoder_metadata := Some (invite_1\<lparr>destination := Some ''10.0.0.9''\<rparr>)\<rparr>)) ''abc'' =
     Some ''10.0.0.1''"
  by (simp add: complete_def continueHanding_def cm_retrieve_def hm_emplace_def setDestination_def
      ConnectionManager_init_def dec_idle_def invite_1_def MessageMetadata_default_def)

end
